theory Spec2Isabelle
  imports Complex_Main
begin

section \<open>Python values\<close>

text \<open>
  Exceptions are values of the type \<open>error\<close>; a function that can raise returns
  \<open>error + 'a\<close> with \<open>Inl\<close> for the exception, and \<open>bind_err\<close> passes the first
  exception on.
\<close>

datatype error = ValueError string | IndexError | ZeroDivisionError | OverflowError | StopIteration

definition bind_err :: "error + 'a \<Rightarrow> ('a \<Rightarrow> error + 'b) \<Rightarrow> error + 'b" where
  "bind_err m f = (case m of Inl e \<Rightarrow> Inl e | Inr v \<Rightarrow> f v)"

definition py_index :: "'a list \<Rightarrow> nat \<Rightarrow> error + 'a" where
  "py_index xs i = (if i < length xs then Inr (xs ! i) else Inl IndexError)"

subsection \<open>Floats\<close>

text \<open>
  A Python float is a finite real number, an infinity or NaN (the two zeros are not
  told apart). The comparison \<open>x < y\<close> is \<open>flt\<close>; it is false whenever NaN takes part.
\<close>

datatype pyfloat = Finite real | PosInf | NegInf | NaN

fun is_inf :: "pyfloat \<Rightarrow> bool" where
  "is_inf PosInf = True"
| "is_inf NegInf = True"
| "is_inf x = False"

fun flt :: "pyfloat \<Rightarrow> pyfloat \<Rightarrow> bool" where
  "flt (Finite a) (Finite b) = (a < b)"
| "flt (Finite a) PosInf = True"
| "flt NegInf (Finite b) = True"
| "flt NegInf PosInf = True"
| "flt x y = False"

fun fle :: "pyfloat \<Rightarrow> pyfloat \<Rightarrow> bool" where
  "fle (Finite a) (Finite b) = (a \<le> b)"
| "fle (Finite a) PosInf = True"
| "fle NegInf (Finite b) = True"
| "fle NegInf PosInf = True"
| "fle NegInf NegInf = True"
| "fle PosInf PosInf = True"
| "fle x y = False"

text \<open>
  The result of an arithmetic operation on finite floats is the exact result rounded
  to a float, or to an infinity on overflow. Which float that is depends on the binary
  format, which is not modelled: a \<open>rounding\<close> is any function from the exact result to
  the float returned that is monotone, never returns NaN, and returns \<open>k / 2 ^ n\<close>
  itself when \<open>|k| \<le> 2 ^ 53\<close> and \<open>n \<le> 1074\<close>. Round-to-nearest of IEEE 754 binary64,
  which Python uses, is one such function (these numbers are binary64 floats), so what
  is proved for every \<open>rounding\<close> holds of the program. \<open>exact\<close> is the rounding that
  changes nothing.
\<close>

typedef rounding = "{f :: real \<Rightarrow> pyfloat.
    (\<forall>x y. x \<le> y \<longrightarrow> fle (f x) (f y)) \<and>
    (\<forall>(k::int) (n::nat). \<bar>k\<bar> \<le> 2 ^ 53 \<and> n \<le> 1074
        \<longrightarrow> f (real_of_int k / 2 ^ n) = Finite (real_of_int k / 2 ^ n))}"
  morphisms round_to Abs_rounding
proof
  show "Finite \<in> {f :: real \<Rightarrow> pyfloat.
    (\<forall>x y. x \<le> y \<longrightarrow> fle (f x) (f y)) \<and>
    (\<forall>(k::int) (n::nat). \<bar>k\<bar> \<le> 2 ^ 53 \<and> n \<le> 1074
        \<longrightarrow> f (real_of_int k / 2 ^ n) = Finite (real_of_int k / 2 ^ n))}"
    by simp
qed

definition exact :: rounding where
  "exact = Abs_rounding Finite"

text \<open>
  Negation, absolute value, subtraction, multiplication and division of floats, with
  the results IEEE 754 gives for infinities and NaN. Python's \<open>/\<close> raises
  \<open>ZeroDivisionError\<close> when the divisor is zero, whatever the dividend.
\<close>

fun fneg :: "pyfloat \<Rightarrow> pyfloat" where
  "fneg (Finite a) = Finite (- a)"
| "fneg PosInf = NegInf"
| "fneg NegInf = PosInf"
| "fneg NaN = NaN"

fun fabs :: "pyfloat \<Rightarrow> pyfloat" where
  "fabs (Finite a) = Finite \<bar>a\<bar>"
| "fabs PosInf = PosInf"
| "fabs NegInf = PosInf"
| "fabs NaN = NaN"

fun fsub :: "rounding \<Rightarrow> pyfloat \<Rightarrow> pyfloat \<Rightarrow> pyfloat" where
  "fsub rnd (Finite a) (Finite b) = round_to rnd (a - b)"
| "fsub rnd NaN y = NaN"
| "fsub rnd x NaN = NaN"
| "fsub rnd PosInf PosInf = NaN"
| "fsub rnd NegInf NegInf = NaN"
| "fsub rnd PosInf y = PosInf"
| "fsub rnd NegInf y = NegInf"
| "fsub rnd (Finite a) PosInf = NegInf"
| "fsub rnd (Finite a) NegInf = PosInf"

fun fmul :: "rounding \<Rightarrow> pyfloat \<Rightarrow> pyfloat \<Rightarrow> pyfloat" where
  "fmul rnd (Finite a) (Finite b) = round_to rnd (a * b)"
| "fmul rnd NaN y = NaN"
| "fmul rnd x NaN = NaN"
| "fmul rnd (Finite a) y = (if a = 0 then NaN else if 0 < a then y else fneg y)"
| "fmul rnd x (Finite b) = (if b = 0 then NaN else if 0 < b then x else fneg x)"
| "fmul rnd PosInf y = y"
| "fmul rnd NegInf y = fneg y"

fun fdiv :: "rounding \<Rightarrow> pyfloat \<Rightarrow> pyfloat \<Rightarrow> error + pyfloat" where
  "fdiv rnd x (Finite b) =
     (if b = 0 then Inl ZeroDivisionError
      else (case x of
              Finite a \<Rightarrow> Inr (round_to rnd (a / b))
            | NaN \<Rightarrow> Inr NaN
            | _ \<Rightarrow> Inr (if 0 < b then x else fneg x)))"
| "fdiv rnd x NaN = Inr NaN"
| "fdiv rnd (Finite a) y = Inr (Finite 0)"
| "fdiv rnd x y = Inr NaN"

text \<open>
  The built-ins \<open>min(a, b)\<close> and \<open>max(a, b)\<close> keep their first argument unless the second
  is smaller, respectively larger; \<open>int()\<close> truncates toward zero and raises on NaN and
  on an infinity; \<open>math.sin\<close> and \<open>math.cos\<close> raise \<open>ValueError\<close> on an infinity.
\<close>

definition py_min2 :: "pyfloat \<Rightarrow> pyfloat \<Rightarrow> pyfloat" where
  "py_min2 a b = (if flt b a then b else a)"

definition py_max2 :: "pyfloat \<Rightarrow> pyfloat \<Rightarrow> pyfloat" where
  "py_max2 a b = (if flt a b then b else a)"

fun py_min :: "pyfloat list \<Rightarrow> error + pyfloat" where
  "py_min [] = Inl (ValueError ''min() arg is an empty sequence'')"
| "py_min (d # ds) = Inr (fold (\<lambda>item smallest. py_min2 smallest item) ds d)"

fun py_max :: "pyfloat list \<Rightarrow> error + pyfloat" where
  "py_max [] = Inl (ValueError ''max() arg is an empty sequence'')"
| "py_max (d # ds) = Inr (fold (\<lambda>item largest. py_max2 largest item) ds d)"

fun py_int :: "pyfloat \<Rightarrow> error + int" where
  "py_int (Finite v) = Inr (if 0 \<le> v then \<lfloor>v\<rfloor> else \<lceil>v\<rceil>)"
| "py_int NaN = Inl (ValueError ''cannot convert float NaN to integer'')"
| "py_int x = Inl OverflowError"

definition radians :: "real \<Rightarrow> real" where
  "radians deg = deg * pi / 180"

fun math_radians :: "pyfloat \<Rightarrow> pyfloat" where
  "math_radians (Finite a) = Finite (radians a)"
| "math_radians x = x"

fun math_sin :: "pyfloat \<Rightarrow> error + pyfloat" where
  "math_sin (Finite a) = Inr (Finite (sin a))"
| "math_sin NaN = Inr NaN"
| "math_sin x = Inl (ValueError ''math domain error'')"

fun math_cos :: "pyfloat \<Rightarrow> error + pyfloat" where
  "math_cos (Finite a) = Inr (Finite (cos a))"
| "math_cos NaN = Inr NaN"
| "math_cos x = Inl (ValueError ''math domain error'')"

section \<open>Reconstruction: convertAdjust.py and convertAdjust_et_tu_lidar.py\<close>

type_synonym csv_row = "string list"
type_synonym point = "real \<times> real \<times> real"
type_synonym py_point = "pyfloat \<times> pyfloat \<times> pyfloat"
type_synonym colored_point = "pyfloat \<times> pyfloat \<times> pyfloat \<times> int \<times> int \<times> int"

subsection \<open>Coordinate transform\<close>

text \<open>
  \<open>convert_to_cartesian\<close> of convertAdjust.py (lines 11-19), on finite arguments and
  with the coordinates as exact real numbers: the rounding of the trigonometric
  functions and of the products is left out of the coordinates.
\<close>

definition convert_to_cartesian :: "real \<Rightarrow> real \<Rightarrow> real \<Rightarrow> point" where
  "convert_to_cartesian angle distance rotation =
     (let angle_rad = radians angle;
          y = distance * sin angle_rad;
          z = distance * cos angle_rad;
          rotation_rad = radians rotation;
          x = z * sin rotation_rad;
          z = z * cos rotation_rad;
          x = - x
      in (x, y, z))"

text \<open>
  \<open>convert_to_cartesian\<close> of convertAdjust_et_tu_lidar.py (lines 14-31), with its
  \<open>clockwise\<close> parameter.
\<close>

definition convert_to_cartesian_et_tu :: "real \<Rightarrow> real \<Rightarrow> real \<Rightarrow> bool \<Rightarrow> point" where
  "convert_to_cartesian_et_tu angle distance rotation clockwise =
     (let angle_rad = radians angle;
          y = distance * sin angle_rad;
          z = distance * cos angle_rad;
          rotation_rad = radians rotation
      in if clockwise then
           (let x = z * sin rotation_rad;
                z = z * cos rotation_rad;
                x = - x
            in (x, y, z))
         else
           (let x = z * sin (- rotation_rad);
                z = z * cos (- rotation_rad);
                x = - x
            in (x, y, z)))"

text \<open>
  The same function (convertAdjust.py lines 11-19) on any float, as \<open>load_csv_data\<close>
  calls it with what \<open>float()\<close> returned: an infinite angle or rotation makes
  \<open>math.sin\<close> raise \<open>ValueError\<close>, and NaN and an infinite distance go through the
  products. The sines, cosines and products of finite numbers are taken exact, as in
  \<open>convert_to_cartesian\<close>, whose triple it returns on finite arguments (lemma
  \<open>convert_py_finite\<close> below); no property of the loader stated here depends on the
  last bit of a coordinate.
\<close>

definition convert_to_cartesian_py :: "pyfloat \<Rightarrow> pyfloat \<Rightarrow> pyfloat \<Rightarrow> error + py_point" where
  "convert_to_cartesian_py angle distance rotation =
     (let angle_rad = math_radians angle in
      bind_err (math_sin angle_rad) (\<lambda>sin_angle.
      let y = fmul exact distance sin_angle in
      bind_err (math_cos angle_rad) (\<lambda>cos_angle.
      let z = fmul exact distance cos_angle;
          rotation_rad = math_radians rotation in
      bind_err (math_sin rotation_rad) (\<lambda>sin_rotation.
      let x = fmul exact z sin_rotation in
      bind_err (math_cos rotation_rad) (\<lambda>cos_rotation.
      let z = fmul exact z cos_rotation;
          x = fneg x
      in Inr (x, y, z))))))"

subsection \<open>Colour mapping\<close>

text \<open>
  \<open>distance_to_color\<close> (convertAdjust.py lines 21-27, the same text in
  convertAdjust_et_tu_lidar.py lines 33-39), every operation rounded, because
  \<open>int()\<close> truncates and so exposes the last bit of its argument. \<open>normalized_of\<close> is
  lines 22-23; \<open>red_value\<close>, \<open>green_value\<close> and \<open>blue_value\<close> are the arguments of
  \<open>int()\<close> in lines 24-26. Where the code mixes the integers 0, 1, 2 and 255 with
  floats the integer is the float of the same value.
\<close>

definition normalized_of :: "rounding \<Rightarrow> pyfloat \<Rightarrow> pyfloat \<Rightarrow> pyfloat \<Rightarrow> error + pyfloat" where
  "normalized_of rnd distance min_distance max_distance =
     bind_err (fdiv rnd (fsub rnd distance min_distance) (fsub rnd max_distance min_distance))
       (\<lambda>normalized. Inr (py_max2 (Finite 0) (py_min2 (Finite 1) normalized)))"

definition red_value :: "rounding \<Rightarrow> pyfloat \<Rightarrow> pyfloat" where
  "red_value rnd normalized = fmul rnd (Finite 255) normalized"

definition green_value :: "rounding \<Rightarrow> pyfloat \<Rightarrow> pyfloat" where
  "green_value rnd normalized =
     fmul rnd (Finite 255)
       (fsub rnd (Finite 1) (fmul rnd (fabs (fsub rnd normalized (Finite 0.5))) (Finite 2)))"

definition blue_value :: "rounding \<Rightarrow> pyfloat \<Rightarrow> pyfloat" where
  "blue_value rnd normalized = fmul rnd (Finite 255) (fsub rnd (Finite 1) normalized)"

definition distance_to_color :: "rounding \<Rightarrow> pyfloat \<Rightarrow> pyfloat \<Rightarrow> pyfloat \<Rightarrow> error + (int \<times> int \<times> int)" where
  "distance_to_color rnd distance min_distance max_distance =
     bind_err (normalized_of rnd distance min_distance max_distance) (\<lambda>normalized.
     bind_err (py_int (red_value rnd normalized)) (\<lambda>r.
     bind_err (py_int (green_value rnd normalized)) (\<lambda>g.
     bind_err (py_int (blue_value rnd normalized)) (\<lambda>b.
       Inr (r, g, b)))))"

text \<open>
  The colour mapping as the specification words it (section 4.2), in exact
  arithmetic, for comparison with \<open>distance_to_color\<close>: the same gradient, but with
  \<open>round\<close> where the code truncates.
\<close>

definition clamp :: "real \<Rightarrow> real \<Rightarrow> real \<Rightarrow> real" where
  "clamp v lo hi = max lo (min hi v)"

definition colorize_spec :: "real \<Rightarrow> real \<Rightarrow> real \<Rightarrow> int \<times> int \<times> int" where
  "colorize_spec distance min_distance max_distance =
     (let t = clamp ((distance - min_distance) / (max_distance - min_distance)) 0 1
      in (round (255 * t), round (255 * (1 - 2 * \<bar>t - 0.5\<bar>)), round (255 * (1 - t))))"

subsection \<open>Loading the sample log\<close>

text \<open>
  A log is the list of rows \<open>csv.reader\<close> yields, each row a list of strings. Python's
  built-in \<open>float()\<close> is a parameter \<open>float_of\<close>: \<open>None\<close> where \<open>float()\<close> raises
  \<open>ValueError\<close>, and otherwise the float it returns, which can be an infinity or NaN.
\<close>

definition py_float :: "(string \<Rightarrow> pyfloat option) \<Rightarrow> string \<Rightarrow> error + pyfloat" where
  "py_float float_of s =
     (case float_of s of
        None \<Rightarrow> Inl (ValueError ''could not convert string to float'')
      | Some v \<Rightarrow> Inr v)"

text \<open>
  The three conversions at the head of the loop body of \<open>load_csv_data\<close>
  (convertAdjust.py lines 54-56), in the order the code evaluates them, and the whole
  body of the \<open>try\<close> (lines 54-59), which also calls the transform.
\<close>

definition parse_row :: "(string \<Rightarrow> pyfloat option) \<Rightarrow> csv_row \<Rightarrow> error + (pyfloat \<times> pyfloat \<times> pyfloat)" where
  "parse_row float_of row =
     (case py_index row 1 of Inl e \<Rightarrow> Inl e | Inr f1 \<Rightarrow>
      (case py_float float_of f1 of Inl e \<Rightarrow> Inl e | Inr angle \<Rightarrow>
      (case py_index row 2 of Inl e \<Rightarrow> Inl e | Inr f2 \<Rightarrow>
      (case py_float float_of f2 of Inl e \<Rightarrow> Inl e | Inr distance \<Rightarrow>
      (case py_index row 3 of Inl e \<Rightarrow> Inl e | Inr f3 \<Rightarrow>
      (case py_float float_of f3 of Inl e \<Rightarrow> Inl e | Inr rotation \<Rightarrow>
         Inr (angle, distance, rotation)))))))"

definition convert_row :: "(string \<Rightarrow> pyfloat option) \<Rightarrow> csv_row \<Rightarrow> error + (py_point \<times> pyfloat)" where
  "convert_row float_of row =
     bind_err (parse_row float_of row) (\<lambda>(angle, distance, rotation).
     bind_err (convert_to_cartesian_py angle distance rotation) (\<lambda>xyz.
       Inr (xyz, distance)))"

text \<open>
  The loop over the data rows (lines 52-61): a \<open>ValueError\<close> raised in the body is
  caught and the row is skipped, any other exception leaves the function.
\<close>

fun load_rows :: "(string \<Rightarrow> pyfloat option) \<Rightarrow> csv_row list \<Rightarrow> py_point list \<Rightarrow> pyfloat list
                    \<Rightarrow> error + (py_point list \<times> pyfloat list)" where
  "load_rows float_of [] points distances = Inr (points, distances)"
| "load_rows float_of (row # rows) points distances =
     (case convert_row float_of row of
        Inr (xyz, distance) \<Rightarrow>
          load_rows float_of rows (points @ [xyz]) (distances @ [distance])
      | Inl (ValueError msg) \<Rightarrow> load_rows float_of rows points distances
      | Inl e \<Rightarrow> Inl e)"

text \<open>The list comprehension of line 68: the first exception ends it.\<close>

fun color_points :: "rounding \<Rightarrow> (py_point \<times> pyfloat) list \<Rightarrow> pyfloat \<Rightarrow> pyfloat
                       \<Rightarrow> error + colored_point list" where
  "color_points rnd [] min_distance max_distance = Inr []"
| "color_points rnd (((x, y, z), distance) # rest) min_distance max_distance =
     (case distance_to_color rnd distance min_distance max_distance of
        Inl e \<Rightarrow> Inl e
      | Inr (r, g, b) \<Rightarrow>
          (case color_points rnd rest min_distance max_distance of
             Inl e \<Rightarrow> Inl e
           | Inr colored \<Rightarrow> Inr ((x, y, z, r, g, b) # colored)))"

definition no_valid_points :: error where
  "no_valid_points = ValueError ''No valid points found in the CSV file.''"

text \<open>Lines 63-69 of \<open>load_csv_data\<close>, after the loop.\<close>

definition finish_load :: "rounding \<Rightarrow> py_point list \<Rightarrow> pyfloat list
                             \<Rightarrow> error + (colored_point list \<times> py_point list)" where
  "finish_load rnd points distances =
     (if points = [] then Inl no_valid_points
      else
        (case py_min distances of Inl e \<Rightarrow> Inl e | Inr min_distance \<Rightarrow>
        (case py_max distances of Inl e \<Rightarrow> Inl e | Inr max_distance \<Rightarrow>
        (case color_points rnd (zip points distances) min_distance max_distance of
           Inl e \<Rightarrow> Inl e
         | Inr colored_points \<Rightarrow> Inr (colored_points, points)))))"

text \<open>
  \<open>load_csv_data\<close> (convertAdjust.py lines 45-69): \<open>next(csvreader)\<close> skips the header
  and raises \<open>StopIteration\<close> on an empty file. The variant of convertAdjust_et_tu_lidar.py
  (lines 57-81) is the same text with \<open>clockwise\<close> handed to the transform.
\<close>

definition load_csv_data :: "rounding \<Rightarrow> (string \<Rightarrow> pyfloat option) \<Rightarrow> csv_row list
                               \<Rightarrow> error + (colored_point list \<times> py_point list)" where
  "load_csv_data rnd float_of csvfile =
     (case csvfile of
        [] \<Rightarrow> Inl StopIteration
      | header # rows \<Rightarrow>
          (case load_rows float_of rows [] [] of
             Inl e \<Rightarrow> Inl e
           | Inr (points, distances) \<Rightarrow> finish_load rnd points distances))"


definition sample_of :: "(string \<Rightarrow> pyfloat option) \<Rightarrow> csv_row \<Rightarrow> (pyfloat \<times> pyfloat \<times> pyfloat) option" where
  "sample_of float_of row =
     (if 4 \<le> length row then
        (case float_of (row ! 1) of None \<Rightarrow> None | Some angle \<Rightarrow>
        (case float_of (row ! 2) of None \<Rightarrow> None | Some distance \<Rightarrow>
        (case float_of (row ! 3) of None \<Rightarrow> None | Some rotation \<Rightarrow>
           if is_inf angle \<or> is_inf rotation then None
           else Some (angle, distance, rotation))))
      else None)"

definition samples_of :: "(string \<Rightarrow> pyfloat option) \<Rightarrow> csv_row list \<Rightarrow> (pyfloat \<times> pyfloat \<times> pyfloat) list" where
  "samples_of float_of rows = List.map_filter (sample_of float_of) rows"

fun xyz_of :: "pyfloat \<times> pyfloat \<times> pyfloat \<Rightarrow> py_point" where
  "xyz_of (angle, distance, rotation) =
     (case convert_to_cartesian_py angle distance rotation of
        Inr xyz \<Rightarrow> xyz
      | Inl e \<Rightarrow> (NaN, NaN, NaN))"

fun distance_in :: "pyfloat \<times> pyfloat \<times> pyfloat \<Rightarrow> pyfloat" where
  "distance_in (angle, distance, rotation) = distance"

text \<open>
  For concrete evaluations: the header the scan script writes, and an excerpt of
  \<open>float()\<close> that converts the strings listed and treats every other string as
  malformed.
\<close>

definition csv_header :: csv_row where
  "csv_header = [''Quality'', ''Angle (degrees)'', ''Distance (mm)'', ''Rotation'']"

definition sample_float :: "string \<Rightarrow> pyfloat option" where
  "sample_float = map_of [(''0'', Finite 0), (''0.0'', Finite 0), (''1'', Finite 1), (''90'', Finite 90),
     (''1000'', Finite 1000), (''2000'', Finite 2000), (''32768'', Finite 32768),
     (''inf'', PosInf), (''nan'', NaN)]"

section \<open>Acquisition: the scan loop of tkinter_da_la.py\<close>

text \<open>
  The sensor driver and the serial port are outside the repository. The sensor is the
  list of answers it gives to the successive polls of \<open>lidar.available\<close>: not available,
  or available with the distances \<open>lidar.get_data()\<close> returns. The sentinel
  \<open>lidar.out_of_range\<close> is a parameter. What the loop does to the outside world is the list
  of its effects, in order; sleeps and console output are left out.
\<close>

type_synonym log_row = "int \<times> nat \<times> int \<times> real"

datatype poll = NotAvailable | Available "int list"

datatype outcome = Finished | Waiting | Raised error

datatype effect = WriteRow log_row | MotorCmd string | StopScan | Disconnect | CloseLog

text \<open>The scan configuration (lines 40-42).\<close>

definition steps :: nat where
  "steps = 400"

definition step_angle :: real where
  "step_angle = 180 / real steps"

definition scans_per_step :: nat where
  "scans_per_step = 2"

text \<open>
  The loop \<open>for angle in range(180)\<close> (lines 61-69), over the angles still to visit, with
  the set \<open>seen\<close> and the rows written so far in this step. \<open>data[angle]\<close> raises
  \<open>IndexError\<close> past the end of \<open>data\<close>; the rows written before stay written.
\<close>

fun sweep :: "int \<Rightarrow> real \<Rightarrow> int list \<Rightarrow> nat list \<Rightarrow> (nat \<times> int) set \<Rightarrow> log_row list
                \<Rightarrow> error option \<times> (nat \<times> int) set \<times> log_row list" where
  "sweep out_of_range rotation_deg data [] seen rows = (None, seen, rows)"
| "sweep out_of_range rotation_deg data (angle # angles) seen rows =
     (case py_index data angle of
        Inl e \<Rightarrow> (Some e, seen, rows)
      | Inr distance \<Rightarrow>
          if distance = out_of_range then sweep out_of_range rotation_deg data angles seen rows
          else
            (let measurement_id = (angle, distance) in
             if measurement_id \<notin> seen then
               sweep out_of_range rotation_deg data angles (insert measurement_id seen)
                     (rows @ [(1, angle, distance, rotation_deg)])
             else sweep out_of_range rotation_deg data angles seen rows))"

text \<open>
  The loop \<open>while scans_collected < scans_per_step\<close> (lines 54-70). It busy-waits while
  the sensor is not available, so it need not end: when the polls run out before enough
  sweeps were collected the outcome is \<open>Waiting\<close>.
\<close>

fun sampling :: "nat \<Rightarrow> int \<Rightarrow> real \<Rightarrow> poll list \<Rightarrow> nat \<Rightarrow> (nat \<times> int) set \<Rightarrow> log_row list
                   \<Rightarrow> outcome \<times> poll list \<times> log_row list" where
  "sampling n_scans out_of_range rotation_deg [] scans_collected seen rows =
     (if scans_collected < n_scans then (Waiting, [], rows) else (Finished, [], rows))"
| "sampling n_scans out_of_range rotation_deg (p # polls) scans_collected seen rows =
     (if scans_collected < n_scans then
        (case p of
           NotAvailable \<Rightarrow> sampling n_scans out_of_range rotation_deg polls scans_collected seen rows
         | Available data \<Rightarrow>
             (case sweep out_of_range rotation_deg data [0..<180] seen rows of
                (Some e, seen', rows') \<Rightarrow> (Raised e, polls, rows')
              | (None, seen', rows') \<Rightarrow>
                  sampling n_scans out_of_range rotation_deg polls (scans_collected + 1) seen' rows'))
      else (Finished, p # polls, rows))"

text \<open>One rotation step up to the motor command: \<open>seen = set()\<close>, \<open>scans_collected = 0\<close>.\<close>

definition scan_step :: "nat \<Rightarrow> int \<Rightarrow> real \<Rightarrow> poll list \<Rightarrow> outcome \<times> poll list \<times> log_row list" where
  "scan_step n_scans out_of_range rotation_deg polls =
     sampling n_scans out_of_range rotation_deg polls 0 {} []"

text \<open>The loop \<open>for step in range(steps)\<close> (lines 47-73), over the steps still to do.\<close>

fun scan_steps :: "nat \<Rightarrow> int \<Rightarrow> real \<Rightarrow> nat list \<Rightarrow> poll list \<Rightarrow> outcome \<times> effect list" where
  "scan_steps n_scans out_of_range angle_per_step [] polls = (Finished, [])"
| "scan_steps n_scans out_of_range angle_per_step (step # rest) polls =
     (let rotation_deg = real step * angle_per_step in
      case scan_step n_scans out_of_range rotation_deg polls of
        (Finished, polls', rows) \<Rightarrow>
          (case scan_steps n_scans out_of_range angle_per_step rest polls' of
             (out, effects) \<Rightarrow> (out, map WriteRow rows @ [MotorCmd ''C''] @ effects))
      | (out, polls', rows) \<Rightarrow> (out, map WriteRow rows))"

definition scan_loop :: "int \<Rightarrow> poll list \<Rightarrow> outcome \<times> effect list" where
  "scan_loop out_of_range polls =
     scan_steps scans_per_step out_of_range step_angle [0..<steps] polls"

text \<open>
  The \<open>finally\<close> block (lines 77-82) and the statement it belongs to. An external
  interrupt is the number \<open>k\<close> of effects the loop had performed when
  \<open>KeyboardInterrupt\<close> arrived; the block then runs after those \<open>k\<close> effects. Without an
  interrupt the block runs when the loop ends or raises, and a loop that waits for the
  sensor forever never gets there: the result is \<open>None\<close>. The four calls of the block
  are not protected from one another: when one of them raises, or a further interrupt
  arrives inside the block, the calls after it are not made. \<open>fault\<close> is \<open>None\<close> when
  all four calls return, and \<open>Some n\<close> when the block is left after \<open>n\<close> of its effects.
\<close>

definition cleanup :: "effect list" where
  "cleanup = [StopScan, Disconnect, MotorCmd ''D'', CloseLog]"

definition finally_block :: "nat option \<Rightarrow> effect list" where
  "finally_block fault = (case fault of None \<Rightarrow> cleanup | Some n \<Rightarrow> take n cleanup)"

definition with_cleanup :: "outcome \<times> effect list \<Rightarrow> nat option \<Rightarrow> nat option \<Rightarrow> effect list option" where
  "with_cleanup body interrupt fault =
     (case body of (out, effects) \<Rightarrow>
        (case interrupt of
           Some k \<Rightarrow> Some (take k effects @ finally_block fault)
         | None \<Rightarrow> (case out of Waiting \<Rightarrow> None | _ \<Rightarrow> Some (effects @ finally_block fault))))"

definition controller :: "int \<Rightarrow> poll list \<Rightarrow> nat option \<Rightarrow> nat option \<Rightarrow> effect list option" where
  "controller out_of_range polls interrupt fault =
     with_cleanup (scan_loop out_of_range polls) interrupt fault"

text \<open>
  The devices the effects act on. \<open>entry_state\<close> is their state when the loop is entered:
  the sensor connected and scanning (lines 20-25), the motor armed with \<open>R\<close> (line 30), the
  log open with only its header (lines 35-37).
\<close>

record devices =
  scanning :: bool
  connected :: bool
  motor_sent :: "string list"
  log_rows :: "log_row list"
  log_open :: bool

fun perform :: "devices \<Rightarrow> effect \<Rightarrow> devices" where
  "perform s (WriteRow row) = s\<lparr>log_rows := log_rows s @ [row]\<rparr>"
| "perform s (MotorCmd cmd) = s\<lparr>motor_sent := motor_sent s @ [cmd]\<rparr>"
| "perform s StopScan = s\<lparr>scanning := False\<rparr>"
| "perform s Disconnect = s\<lparr>connected := False\<rparr>"
| "perform s CloseLog = s\<lparr>log_open := False\<rparr>"

definition entry_state :: devices where
  "entry_state = \<lparr>scanning = True, connected = True, motor_sent = [''R''],
                  log_rows = [], log_open = True\<rparr>"

text \<open>
  The rows among a list of effects, in the order written, and the CSV row
  \<open>writer.writerow([1, angle, distance, rotation_deg])\<close> (line 69) puts in the log for
  one of them: \<open>csv.writer\<close> renders each field with \<open>str()\<close>, which is a parameter for
  integers (\<open>str_int\<close>) and for floats (\<open>str_float\<close>).
\<close>

fun written :: "effect list \<Rightarrow> log_row list" where
  "written [] = []"
| "written (WriteRow row # effects) = row # written effects"
| "written (e # effects) = written effects"

fun csv_of :: "(int \<Rightarrow> string) \<Rightarrow> (real \<Rightarrow> string) \<Rightarrow> log_row \<Rightarrow> csv_row" where
  "csv_of str_int str_float (quality, angle, distance, rotation_deg) =
     [str_int quality, str_int (int angle), str_int distance, str_float rotation_deg]"

text \<open>
  The three numbers a written row holds, and what it means that its fields read back:
  \<open>float()\<close> of the \<open>str()\<close> of its angle, of its distance and of its rotation is the
  number written. Python guarantees this of every integer below \<open>2 ^ 53\<close> and of every
  float.
\<close>

fun reading_of :: "log_row \<Rightarrow> pyfloat \<times> pyfloat \<times> pyfloat" where
  "reading_of (quality, angle, distance, rotation_deg) =
     (Finite (real angle), Finite (real_of_int distance), Finite rotation_deg)"

fun reads_back :: "(string \<Rightarrow> pyfloat option) \<Rightarrow> (int \<Rightarrow> string) \<Rightarrow> (real \<Rightarrow> string) \<Rightarrow> log_row \<Rightarrow> bool" where
  "reads_back float_of str_int str_float (quality, angle, distance, rotation_deg) =
     (float_of (str_int (int angle)) = Some (Finite (real angle))
      \<and> float_of (str_int distance) = Some (Finite (real_of_int distance))
      \<and> float_of (str_float rotation_deg) = Some (Finite rotation_deg))"

text \<open>
  The key \<open>(angle, distance)\<close> of a written row and its distance, and the rows one sweep
  over fresh angles writes: one per angle whose reading is not the sentinel.
\<close>

fun measurement_id :: "log_row \<Rightarrow> nat \<times> int" where
  "measurement_id (quality, angle, distance, rotation) = (angle, distance)"

fun distance_of :: "log_row \<Rightarrow> int" where
  "distance_of (quality, angle, distance, rotation) = distance"

definition readings :: "int \<Rightarrow> real \<Rightarrow> int list \<Rightarrow> nat list \<Rightarrow> log_row list" where
  "readings out_of_range rotation_deg data angles =
     map (\<lambda>angle. (1, angle, data ! angle, rotation_deg))
         (filter (\<lambda>angle. data ! angle \<noteq> out_of_range) angles)"

text \<open>
  Sweeps for concrete evaluations: \<open>ramp\<close> reads \<open>a\<close> millimetres at angle \<open>a\<close>,
  \<open>blank\<close> reads the sentinel at every angle, and \<open>two_echoes\<close> reads 1000 at angle 0,
  2000 at angle 90 and the sentinel elsewhere; and the \<open>str()\<close> of the integers and of
  the float \<open>0.0\<close> that the rows of \<open>two_echoes\<close> hold at the first step.
\<close>

definition ramp :: "int list" where
  "ramp = map int [0..<360]"

definition blank :: "int \<Rightarrow> int list" where
  "blank out_of_range = replicate 360 out_of_range"

definition two_echoes :: "int \<Rightarrow> int list" where
  "two_echoes out_of_range = (blank out_of_range)[0 := 1000, 90 := 2000]"

definition sample_str_int :: "int \<Rightarrow> string" where
  "sample_str_int n =
     (if n = 0 then ''0'' else if n = 1 then ''1'' else if n = 90 then ''90''
      else if n = 1000 then ''1000'' else if n = 2000 then ''2000'' else ''32768'')"

definition sample_str_float :: "real \<Rightarrow> string" where
  "sample_str_float x = ''0.0''"

section \<open>Properties of the coordinate transform\<close>

text \<open>
  Claim C1. With clockwise chirality the transform returns
  \<open>x = -(distance * cos angle * sin rotation)\<close>, \<open>y = distance * sin angle\<close>,
  \<open>z = distance * cos angle * cos rotation\<close>, the angles converted from degrees to radians;
  this holds of the transform of convertAdjust.py and of the one of
  convertAdjust_et_tu_lidar.py called with \<open>clockwise=True\<close>. In particular a reading at
  angle 0 and rotation 0 with distance \<open>d \<ge> 0\<close> is mapped to \<open>(0, 0, d)\<close>.
\<close>

theorem convert_to_cartesian_clockwise:
  "convert_to_cartesian angle distance rotation =
      (- (distance * cos (radians angle) * sin (radians rotation)),
       distance * sin (radians angle),
       distance * cos (radians angle) * cos (radians rotation))
   \<and> convert_to_cartesian_et_tu angle distance rotation True =
      (- (distance * cos (radians angle) * sin (radians rotation)),
       distance * sin (radians angle),
       distance * cos (radians angle) * cos (radians rotation))
   \<and> (0 \<le> d \<longrightarrow> convert_to_cartesian 0 d 0 = (0, 0, d)
                \<and> convert_to_cartesian_et_tu 0 d 0 True = (0, 0, d))"
  by (simp add: convert_to_cartesian_def convert_to_cartesian_et_tu_def radians_def Let_def)

text \<open>The instance of C1 at distance 1000.\<close>

theorem convert_to_cartesian_clockwise_witness:
  "(0::real) \<le> 1000 \<and> convert_to_cartesian 0 1000 0 = (0, 0, 1000)
   \<and> convert_to_cartesian_et_tu 0 1000 0 True = (0, 0, 1000)"
  using convert_to_cartesian_clockwise [of 0 1000 0 1000] by (simp add: radians_def)

text \<open>
  Claim C7. The transform of convertAdjust.py and the transform of
  convertAdjust_et_tu_lidar.py called with \<open>clockwise=True\<close> return the same triple for
  every angle, distance and rotation.
\<close>

theorem convert_to_cartesian_variants_agree:
  "convert_to_cartesian angle distance rotation
     = convert_to_cartesian_et_tu angle distance rotation True"
  by (simp add: convert_to_cartesian_def convert_to_cartesian_et_tu_def Let_def)

section \<open>Facts about floats and rounding\<close>

lemma bind_err_simps [simp]:
  "bind_err (Inl e) f = Inl e" "bind_err (Inr v) f = f v"
  by (simp_all add: bind_err_def)

lemma round_to_mono: "x \<le> y \<Longrightarrow> fle (round_to rnd x) (round_to rnd y)"
  using round_to[of rnd] by simp

lemma round_to_dyadic:
  "\<bar>k\<bar> \<le> 2 ^ 53 \<Longrightarrow> n \<le> 1074 \<Longrightarrow>
   round_to rnd (real_of_int k / 2 ^ n) = Finite (real_of_int k / 2 ^ n)"
  using round_to[of rnd] by simp

lemma round_to_int: "\<bar>k\<bar> \<le> 2 ^ 53 \<Longrightarrow> round_to rnd (real_of_int k) = Finite (real_of_int k)"
  using round_to_dyadic[of k 0 rnd] by simp

lemma round_to_exact [simp]: "round_to exact x = Finite x"
  by (simp add: exact_def Abs_rounding_inverse)

lemma round_to_consts [simp]:
  "round_to rnd 0 = Finite 0" "round_to rnd 1 = Finite 1" "round_to rnd 255 = Finite 255"
  "round_to rnd (1 / 2) = Finite (1 / 2)" "round_to rnd (- (1 / 2)) = Finite (- (1 / 2))"
  using round_to_int[of 0 rnd] round_to_int[of 1 rnd] round_to_int[of 255 rnd]
    round_to_dyadic[of 1 1 rnd] round_to_dyadic[of "-1" 1 rnd]
  by simp_all

lemma round_to_between:
  assumes "a \<le> x" "x \<le> b" "round_to rnd a = Finite a" "round_to rnd b = Finite b"
  shows "\<exists>v. round_to rnd x = Finite v \<and> a \<le> v \<and> v \<le> b"
proof -
  from round_to_mono[OF assms(1), of rnd] assms(3) have lo: "fle (Finite a) (round_to rnd x)" by simp
  from round_to_mono[OF assms(2), of rnd] assms(4) have hi: "fle (round_to rnd x) (Finite b)" by simp
  from lo hi show ?thesis by (cases "round_to rnd x") simp_all
qed

lemma round_to_numeral [simp]:
  "(numeral n :: int) \<le> 2 ^ 53 \<Longrightarrow> round_to rnd (numeral n) = Finite (numeral n)"
  using round_to_int[of "numeral n" rnd] by simp

lemma round_to_fraction [simp]:
  "(numeral n :: int) \<le> 2 ^ 53 \<Longrightarrow> round_to rnd (numeral n / 2) = Finite (numeral n / 2)"
  "(numeral n :: int) \<le> 2 ^ 53 \<Longrightarrow> round_to rnd (numeral n / 4) = Finite (numeral n / 4)"
  "(numeral n :: int) \<le> 2 ^ 53 \<Longrightarrow> round_to rnd (numeral n / 8) = Finite (numeral n / 8)"
  "(numeral n :: int) \<le> 2 ^ 53 \<Longrightarrow> round_to rnd (- (numeral n / 8)) = Finite (- (numeral n / 8))"
  "round_to rnd (1 / 4) = Finite (1 / 4)"
  "round_to rnd (1 / 8) = Finite (1 / 8)"
  using round_to_dyadic[of "numeral n" 1 rnd] round_to_dyadic[of "numeral n" 2 rnd]
    round_to_dyadic[of "numeral n" 3 rnd] round_to_dyadic[of "- numeral n" 3 rnd]
    round_to_dyadic[of 1 2 rnd] round_to_dyadic[of 1 3 rnd]
  by simp_all

lemmas color_eval = distance_to_color_def normalized_of_def red_value_def green_value_def
  blue_value_def py_min2_def py_max2_def

section \<open>Facts about the colour mapping\<close>

text \<open>
  Whatever the quotient is, also an infinity or NaN, the clamp of line 23 returns a
  finite number in \<open>[0, 1]\<close>; from there every rounded intermediate result stays in
  its interval, because rounding is monotone and leaves 0, 1/2, 1 and 255 unchanged.
\<close>

lemma clamp_unit:
  "\<exists>t. py_max2 (Finite 0) (py_min2 (Finite 1) q) = Finite t \<and> 0 \<le> t \<and> t \<le> 1"
  by (cases q) (auto simp: py_max2_def py_min2_def)

lemma red_bounds:
  assumes "0 \<le> t" "t \<le> 1"
  shows "\<exists>v. red_value rnd (Finite t) = Finite v \<and> 0 \<le> v \<and> v \<le> 255"
proof -
  have "0 \<le> 255 * t" "255 * t \<le> 255" using assms by simp_all
  from round_to_between[OF this, of rnd] show ?thesis by (simp add: red_value_def)
qed

lemma blue_bounds:
  assumes "0 \<le> t" "t \<le> 1"
  shows "\<exists>v. blue_value rnd (Finite t) = Finite v \<and> 0 \<le> v \<and> v \<le> 255"
proof -
  have "0 \<le> 1 - t" "1 - t \<le> 1" using assms by simp_all
  from round_to_between[OF this, of rnd] obtain s
    where s: "round_to rnd (1 - t) = Finite s" "0 \<le> s" "s \<le> 1" by auto
  have "0 \<le> 255 * s" "255 * s \<le> 255" using s by simp_all
  from round_to_between[OF this, of rnd] s show ?thesis by (simp add: blue_value_def)
qed

lemma green_bounds:
  assumes "0 \<le> t" "t \<le> 1"
  shows "\<exists>v. green_value rnd (Finite t) = Finite v \<and> 0 \<le> v \<and> v \<le> 255"
proof -
  have "- (1 / 2) \<le> t - 1 / 2" "t - 1 / 2 \<le> 1 / 2" using assms by simp_all
  from round_to_between[OF this, of rnd] obtain u
    where u: "round_to rnd (t - 1 / 2) = Finite u" "- (1 / 2) \<le> u" "u \<le> 1 / 2" by auto
  have "0 \<le> \<bar>u\<bar> * 2" "\<bar>u\<bar> * 2 \<le> 1" using u by (simp_all add: abs_if)
  from round_to_between[OF this, of rnd] obtain w
    where w: "round_to rnd (\<bar>u\<bar> * 2) = Finite w" "0 \<le> w" "w \<le> 1" by auto
  have "0 \<le> 1 - w" "1 - w \<le> 1" using w by simp_all
  from round_to_between[OF this, of rnd] obtain s
    where s: "round_to rnd (1 - w) = Finite s" "0 \<le> s" "s \<le> 1" by auto
  have "0 \<le> 255 * s" "255 * s \<le> 255" using s by simp_all
  from round_to_between[OF this, of rnd] u w s show ?thesis by (simp add: green_value_def)
qed

lemma py_int_floor: "0 \<le> v \<Longrightarrow> py_int (Finite v) = Inr \<lfloor>v\<rfloor>"
  by simp

lemma floor_bounds: "0 \<le> (v::real) \<Longrightarrow> v \<le> 255 \<Longrightarrow> 0 \<le> \<lfloor>v\<rfloor> \<and> \<lfloor>v\<rfloor> \<le> 255"
  by (simp add: le_floor_iff floor_le_iff)

lemma normalized_of_ok:
  assumes "fsub rnd max_distance min_distance \<noteq> Finite 0"
  shows "\<exists>t. normalized_of rnd distance min_distance max_distance = Inr (Finite t) \<and> 0 \<le> t \<and> t \<le> 1"
proof -
  obtain q where "fdiv rnd (fsub rnd distance min_distance) (fsub rnd max_distance min_distance) = Inr q"
    using assms by (cases "fsub rnd max_distance min_distance"; cases "fsub rnd distance min_distance") auto
  with clamp_unit[of q] show ?thesis by (auto simp: normalized_of_def)
qed

lemma distance_to_color_ok:
  assumes "fsub rnd max_distance min_distance \<noteq> Finite 0"
  shows "\<exists>t vr vg vb.
           normalized_of rnd distance min_distance max_distance = Inr (Finite t) \<and> 0 \<le> t \<and> t \<le> 1
         \<and> red_value rnd (Finite t) = Finite vr
         \<and> green_value rnd (Finite t) = Finite vg
         \<and> blue_value rnd (Finite t) = Finite vb
         \<and> distance_to_color rnd distance min_distance max_distance = Inr (\<lfloor>vr\<rfloor>, \<lfloor>vg\<rfloor>, \<lfloor>vb\<rfloor>)
         \<and> 0 \<le> \<lfloor>vr\<rfloor> \<and> \<lfloor>vr\<rfloor> \<le> 255 \<and> 0 \<le> \<lfloor>vg\<rfloor> \<and> \<lfloor>vg\<rfloor> \<le> 255 \<and> 0 \<le> \<lfloor>vb\<rfloor> \<and> \<lfloor>vb\<rfloor> \<le> 255"
proof -
  from normalized_of_ok[OF assms] obtain t
    where t: "normalized_of rnd distance min_distance max_distance = Inr (Finite t)" "0 \<le> t" "t \<le> 1"
    by blast
  from red_bounds[OF t(2,3), of rnd] obtain vr
    where vr: "red_value rnd (Finite t) = Finite vr" "0 \<le> vr" "vr \<le> 255" by blast
  from green_bounds[OF t(2,3), of rnd] obtain vg
    where vg: "green_value rnd (Finite t) = Finite vg" "0 \<le> vg" "vg \<le> 255" by blast
  from blue_bounds[OF t(2,3), of rnd] obtain vb
    where vb: "blue_value rnd (Finite t) = Finite vb" "0 \<le> vb" "vb \<le> 255" by blast
  have "distance_to_color rnd distance min_distance max_distance = Inr (\<lfloor>vr\<rfloor>, \<lfloor>vg\<rfloor>, \<lfloor>vb\<rfloor>)"
    using t vr vg vb by (simp add: distance_to_color_def)
  with t vr vg vb floor_bounds[OF vr(2,3)] floor_bounds[OF vg(2,3)] floor_bounds[OF vb(2,3)]
  show ?thesis by blast
qed

lemma fsub_nonzero:
  assumes "1 / 2 ^ 1074 \<le> b - a"
  shows "fsub rnd (Finite b) (Finite a) \<noteq> Finite 0"
proof -
  have "round_to rnd (1 / 2 ^ 1074) = Finite (1 / 2 ^ 1074)"
    using round_to_dyadic[of 1 1074 rnd] by simp
  with round_to_mono[OF assms, of rnd] have "fle (Finite (1 / 2 ^ 1074)) (round_to rnd (b - a))"
    by simp
  then show ?thesis by (cases "round_to rnd (b - a)") auto
qed

lemma distance_to_color_degenerate:
  "distance_to_color rnd d (Finite m) (Finite m) = Inl ZeroDivisionError"
  by (simp add: distance_to_color_def normalized_of_def)

section \<open>Facts about the loader\<close>

lemma convert_py_inf:
  "is_inf angle \<or> is_inf rotation \<Longrightarrow>
   convert_to_cartesian_py angle distance rotation = Inl (ValueError ''math domain error'')"
  by (cases angle; cases rotation) (simp_all add: convert_to_cartesian_py_def Let_def)

lemma convert_py_ok:
  "\<not> is_inf angle \<Longrightarrow> \<not> is_inf rotation \<Longrightarrow>
   \<exists>xyz. convert_to_cartesian_py angle distance rotation = Inr xyz"
  by (cases angle; cases rotation) (simp_all add: convert_to_cartesian_py_def Let_def)

lemma convert_py_finite:
  "convert_to_cartesian_py (Finite angle) (Finite distance) (Finite rotation) =
     (case convert_to_cartesian angle distance rotation of
        (x, y, z) \<Rightarrow> Inr (Finite x, Finite y, Finite z))"
  by (simp add: convert_to_cartesian_py_def convert_to_cartesian_def Let_def)

lemma convert_py_error:
  "convert_to_cartesian_py angle distance rotation = Inl e \<Longrightarrow> e = ValueError ''math domain error''"
  using convert_py_inf[of angle rotation distance] convert_py_ok[of angle rotation distance]
  by (cases "is_inf angle \<or> is_inf rotation") auto

lemma parse_row_error:
  "parse_row float_of row = Inl e \<Longrightarrow> e = IndexError \<or> (\<exists>msg. e = ValueError msg)"
  by (auto simp: parse_row_def py_index_def py_float_def
        split: if_splits option.splits sum.splits)

lemma convert_row_error:
  "convert_row float_of row = Inl e \<Longrightarrow> e = IndexError \<or> (\<exists>msg. e = ValueError msg)"
  by (auto simp: convert_row_def bind_err_def split: sum.splits prod.splits
        dest: parse_row_error convert_py_error)

lemma parse_row_full:
  "4 \<le> length row \<Longrightarrow>
   parse_row float_of row =
     (case float_of (row ! 1) of None \<Rightarrow> Inl (ValueError ''could not convert string to float'')
      | Some angle \<Rightarrow>
     (case float_of (row ! 2) of None \<Rightarrow> Inl (ValueError ''could not convert string to float'')
      | Some distance \<Rightarrow>
     (case float_of (row ! 3) of None \<Rightarrow> Inl (ValueError ''could not convert string to float'')
      | Some rotation \<Rightarrow> Inr (angle, distance, rotation))))"
  by (simp add: parse_row_def py_index_def py_float_def split: option.splits)


lemma convert_row_sample:
  "sample_of float_of row = Some s \<Longrightarrow> convert_row float_of row = Inr (xyz_of s, distance_in s)"
proof -
  assume s: "sample_of float_of row = Some s"
  obtain a d r where adr: "s = (a, d, r)" by (cases s) auto
  from s adr have len: "4 \<le> length row" and f: "float_of (row ! 1) = Some a"
      "float_of (row ! 2) = Some d" "float_of (row ! 3) = Some r"
    and fin: "\<not> is_inf a" "\<not> is_inf r"
    by (auto simp: sample_of_def split: if_splits option.splits)
  from convert_py_ok[OF fin, of d] obtain xyz where "convert_to_cartesian_py a d r = Inr xyz" by blast
  with len f adr show ?thesis by (simp add: convert_row_def parse_row_full)
qed

lemma convert_row_no_sample:
  "4 \<le> length row \<Longrightarrow> sample_of float_of row = None \<Longrightarrow>
   \<exists>msg. convert_row float_of row = Inl (ValueError msg)"
  by (auto simp: sample_of_def convert_row_def parse_row_full convert_py_inf
        split: option.splits if_splits)


lemma load_rows_samples:
  "\<forall>row \<in> set rows. 4 \<le> length row \<Longrightarrow>
   load_rows float_of rows points distances =
     Inr (points @ map xyz_of (samples_of float_of rows),
          distances @ map distance_in (samples_of float_of rows))"
proof (induction rows arbitrary: points distances)
  case Nil
  then show ?case by (simp add: samples_of_def)
next
  case (Cons row rows)
  then have len: "4 \<le> length row" and rest: "\<forall>row \<in> set rows. 4 \<le> length row" by simp_all
  show ?case
  proof (cases "sample_of float_of row")
    case None
    from convert_row_no_sample[OF len None] obtain msg
      where "convert_row float_of row = Inl (ValueError msg)" by blast
    with None Cons.IH[OF rest] show ?thesis by (simp add: samples_of_def map_filter_simps)
  next
    case (Some s)
    from convert_row_sample[OF Some] Some Cons.IH[OF rest]
    show ?thesis by (simp add: samples_of_def map_filter_simps)
  qed
qed

lemma load_rows_abort:
  "row \<in> set rows \<Longrightarrow> convert_row float_of row = Inl IndexError \<Longrightarrow>
   load_rows float_of rows points distances = Inl IndexError"
proof (induction rows arbitrary: points distances)
  case Nil
  then show ?case by simp
next
  case (Cons r rows)
  show ?case
  proof (cases "convert_row float_of r")
    case (Inl e)
    from convert_row_error[OF Inl] Inl Cons show ?thesis by auto
  next
    case (Inr s)
    with Cons show ?thesis by (cases s) auto
  qed
qed

lemma load_rows_shape:
  "load_rows float_of rows points distances = Inr (points', distances') \<Longrightarrow>
   \<exists>ps ds. points' = points @ ps \<and> distances' = distances @ ds \<and> length ps = length ds"
proof (induction rows arbitrary: points distances)
  case Nil
  then show ?case by simp
next
  case (Cons row rows)
  show ?case
  proof (cases "convert_row float_of row")
    case (Inl e)
    with Cons.prems convert_row_error[OF Inl] obtain msg where "e = ValueError msg" by auto
    with Inl Cons show ?thesis by simp
  next
    case (Inr s)
    obtain xyz d where s: "s = (xyz, d)" by (cases s) auto
    with Inr Cons.prems
    have "load_rows float_of rows (points @ [xyz]) (distances @ [d]) = Inr (points', distances')"
      by simp
    from Cons.IH[OF this] obtain ps ds
      where "points' = (points @ [xyz]) @ ps" "distances' = (distances @ [d]) @ ds"
        "length ps = length ds" by blast
    then have "points' = points @ (xyz # ps) \<and> distances' = distances @ (d # ds)
                 \<and> length (xyz # ps) = length (d # ds)" by simp
    then show ?thesis by blast
  qed
qed

lemma load_rows_error:
  "load_rows float_of rows points distances = Inl e \<Longrightarrow> e = IndexError"
proof (induction rows arbitrary: points distances)
  case Nil
  then show ?case by simp
next
  case (Cons row rows)
  show ?case
  proof (cases "convert_row float_of row")
    case (Inl err)
    from convert_row_error[OF Inl] Inl Cons show ?thesis by auto
  next
    case (Inr s)
    with Cons show ?thesis by (cases s) auto
  qed
qed

lemma load_rows_converted:
  "row \<in> set rows \<Longrightarrow> convert_row float_of row = Inr s \<Longrightarrow>
   load_rows float_of rows points distances = Inr (points', distances') \<Longrightarrow> points' \<noteq> []"
proof (induction rows arbitrary: points distances)
  case Nil
  then show ?case by simp
next
  case (Cons r rows)
  show ?case
  proof (cases "convert_row float_of r")
    case (Inl e)
    with Cons.prems have "r \<noteq> row" by auto
    with Cons.prems have mem: "row \<in> set rows" by simp
    from Cons.prems(3) Inl convert_row_error[OF Inl] obtain msg where "e = ValueError msg" by auto
    with Inl Cons.prems(3) Cons.IH[OF mem Cons.prems(2)] show ?thesis by simp
  next
    case (Inr s2)
    obtain xyz d where "s2 = (xyz, d)" by (cases s2) auto
    with Inr Cons.prems(3)
    have "load_rows float_of rows (points @ [xyz]) (distances @ [d]) = Inr (points', distances')"
      by simp
    from load_rows_shape[OF this] show ?thesis by auto
  qed
qed

lemma distance_to_color_zero:
  "fsub rnd max_distance min_distance = Finite 0 \<Longrightarrow>
   distance_to_color rnd distance min_distance max_distance = Inl ZeroDivisionError"
  by (simp add: distance_to_color_def normalized_of_def)

lemma color_points_ok:
  "fsub rnd max_distance min_distance \<noteq> Finite 0 \<Longrightarrow>
   \<exists>colored. color_points rnd samples min_distance max_distance = Inr colored
             \<and> length colored = length samples"
proof (induction samples)
  case Nil
  then show ?case by simp
next
  case (Cons s samples)
  then obtain colored where c: "color_points rnd samples min_distance max_distance = Inr colored"
      "length colored = length samples" by blast
  obtain x y z distance where s: "s = ((x, y, z), distance)" by (cases s) auto
  from distance_to_color_ok[OF Cons.prems, of distance] obtain r g b
    where "distance_to_color rnd distance min_distance max_distance = Inr (r, g, b)"
    by blast
  with c s show ?case by simp
qed

lemma color_points_length:
  "color_points rnd samples mn mx = Inr colored \<Longrightarrow> length colored = length samples"
proof (induction samples arbitrary: colored)
  case Nil
  then show ?case by simp
next
  case (Cons s samples)
  obtain x y z d where s: "s = ((x, y, z), d)" by (cases s) auto
  from Cons.prems s obtain r g b rest where
    "color_points rnd samples mn mx = Inr rest" "colored = (x, y, z, r, g, b) # rest"
    by (auto split: sum.splits)
  with Cons.IH show ?case by simp
qed

lemma finish_load_Inr:
  "finish_load rnd points distances = Inr (colored, pts) \<Longrightarrow>
   pts = points \<and> length colored = min (length points) (length distances)"
  by (auto simp: finish_load_def split: if_splits sum.splits dest: color_points_length)

lemma finish_load_ok:
  assumes "points \<noteq> []" "length points = length distances"
    and "py_min distances = Inr min_distance" "py_max distances = Inr max_distance"
    and "fsub rnd max_distance min_distance \<noteq> Finite 0"
  shows "\<exists>colored. finish_load rnd points distances = Inr (colored, points)
                   \<and> length colored = length points"
  using color_points_ok[OF assms(5), of "zip points distances"] assms(1-4)
  by (auto simp: finish_load_def)

lemma finish_load_nonempty:
  assumes "points \<noteq> []" "length points = length distances"
  shows "finish_load rnd points distances \<noteq> Inl no_valid_points"
proof -
  obtain p ps where p: "points = p # ps" using assms(1) by (cases points) auto
  obtain d ds where d: "distances = d # ds" using assms p by (cases distances) auto
  obtain x y z where xyz: "p = (x, y, z)" by (cases p) auto
  obtain mn mx where m: "py_min distances = Inr mn" "py_max distances = Inr mx"
    by (simp add: d)
  show ?thesis
  proof (cases "fsub rnd mx mn = Finite 0")
    case True
    from distance_to_color_zero[OF True, of d]
    have "finish_load rnd points distances = Inl ZeroDivisionError"
      using m by (simp add: finish_load_def p) (simp add: d xyz)
    then show ?thesis by (simp add: no_valid_points_def)
  next
    case False
    from finish_load_ok[OF assms m False] show ?thesis by auto
  qed
qed

lemma sample_float_simps:
  "sample_float ''0'' = Some (Finite 0)" "sample_float ''0.0'' = Some (Finite 0)"
  "sample_float ''1'' = Some (Finite 1)"
  "sample_float ''90'' = Some (Finite 90)"
  "sample_float ''1000'' = Some (Finite 1000)" "sample_float ''2000'' = Some (Finite 2000)"
  "sample_float ''32768'' = Some (Finite 32768)" "sample_float ''inf'' = Some PosInf"
  "sample_float ''nan'' = Some NaN" "sample_float ''abc'' = None"
  by (simp_all add: sample_float_def)

lemmas load_eval = load_csv_data_def convert_row_def parse_row_def py_index_def py_float_def
  sample_float_simps finish_load_def convert_py_finite convert_py_inf convert_to_cartesian_def
  radians_def color_eval Let_def no_valid_points_def

section \<open>Properties of the colour mapping\<close>

text \<open>
  Claim C3 says that the degenerate range \<open>min_distance = max_distance\<close> yields the
  mid-gradient colour and no error. The code has no branch for that range: for every
  distance \<open>d\<close> and every finite bound \<open>m\<close> the call \<open>distance_to_color(d, m, m)\<close> divides by
  zero and raises \<open>ZeroDivisionError\<close>. A log with a single data row reaches that call, so
  loading the row \<open>(1, 90, 1000, 0)\<close> raises as well.
\<close>

theorem distance_to_color_degenerate_range:
  "distance_to_color rnd d (Finite m) (Finite m) = Inl ZeroDivisionError
   \<and> load_csv_data rnd sample_float [csv_header, [''1'', ''90'', ''1000'', ''0'']]
       = Inl ZeroDivisionError"
  by (simp add: distance_to_color_degenerate load_eval)

text \<open>
  Claim C4 as stated, with \<open>round\<close>, fails: at distance 1 in the range from 0 to 8
  every intermediate result is a float, so no rounding takes place, and the code
  returns \<open>(31, 63, 223)\<close>, where rounding \<open>31.875\<close> and \<open>63.75\<close> gives \<open>32\<close> and
  \<open>64\<close>.
\<close>

theorem distance_to_color_not_rounded:
  "\<forall>rnd. distance_to_color rnd (Finite 1) (Finite 0) (Finite 8) = Inr (31, 63, 223)
     \<and> colorize_spec 1 0 8 = (32, 64, 223)"
  by (simp add: color_eval colorize_spec_def clamp_def Let_def round_def)

text \<open>
  Claim C4, amended: whenever \<open>max_distance - min_distance\<close>, as the code computes it,
  is not zero, \<open>distance_to_color\<close> raises nothing; its \<open>normalized\<close> is a number \<open>t\<close> in
  \<open>[0, 1]\<close>, and its channels are the floating-point values of \<open>255 * t\<close>,
  \<open>255 * (1 - |t - 0.5| * 2)\<close> and \<open>255 * (1 - t)\<close> truncated to integers (their
  floors, not their roundings), each in \<open>[0, 255]\<close>. This holds for all floats,
  infinities and NaN included. The difference is not zero, in particular, for finite
  \<open>max_distance > min_distance\<close> that are at least \<open>2 ^ -1074\<close> apart, as two different
  binary64 floats always are.
\<close>

theorem distance_to_color_truncates:
  "(fsub rnd max_distance min_distance \<noteq> Finite 0 \<longrightarrow>
      (\<exists>t vr vg vb.
           normalized_of rnd distance min_distance max_distance = Inr (Finite t) \<and> 0 \<le> t \<and> t \<le> 1
         \<and> red_value rnd (Finite t) = Finite vr
         \<and> green_value rnd (Finite t) = Finite vg
         \<and> blue_value rnd (Finite t) = Finite vb
         \<and> distance_to_color rnd distance min_distance max_distance = Inr (\<lfloor>vr\<rfloor>, \<lfloor>vg\<rfloor>, \<lfloor>vb\<rfloor>)
         \<and> 0 \<le> \<lfloor>vr\<rfloor> \<and> \<lfloor>vr\<rfloor> \<le> 255 \<and> 0 \<le> \<lfloor>vg\<rfloor> \<and> \<lfloor>vg\<rfloor> \<le> 255 \<and> 0 \<le> \<lfloor>vb\<rfloor> \<and> \<lfloor>vb\<rfloor> \<le> 255))
   \<and> (1 / 2 ^ 1074 \<le> b - a \<longrightarrow> fsub rnd (Finite b) (Finite a) \<noteq> Finite 0)"
proof (intro conjI impI)
  assume "fsub rnd max_distance min_distance \<noteq> Finite 0"
  then show "\<exists>t vr vg vb.
           normalized_of rnd distance min_distance max_distance = Inr (Finite t) \<and> 0 \<le> t \<and> t \<le> 1
         \<and> red_value rnd (Finite t) = Finite vr
         \<and> green_value rnd (Finite t) = Finite vg
         \<and> blue_value rnd (Finite t) = Finite vb
         \<and> distance_to_color rnd distance min_distance max_distance = Inr (\<lfloor>vr\<rfloor>, \<lfloor>vg\<rfloor>, \<lfloor>vb\<rfloor>)
         \<and> 0 \<le> \<lfloor>vr\<rfloor> \<and> \<lfloor>vr\<rfloor> \<le> 255 \<and> 0 \<le> \<lfloor>vg\<rfloor> \<and> \<lfloor>vg\<rfloor> \<le> 255 \<and> 0 \<le> \<lfloor>vb\<rfloor> \<and> \<lfloor>vb\<rfloor> \<le> 255"
    by (rule distance_to_color_ok)
next
  assume "1 / 2 ^ 1074 \<le> b - a"
  then show "fsub rnd (Finite b) (Finite a) \<noteq> Finite 0"
    by (rule fsub_nonzero)
qed

text \<open>
  The instance of the amended C4 at distance 1 in the range from 0 to 8, for every
  rounding.
\<close>

theorem distance_to_color_truncates_witness:
  "\<forall>rnd. fsub rnd (Finite 8) (Finite 0) \<noteq> Finite 0
     \<and> (1::real) / 2 ^ 1074 \<le> 8 - 0
     \<and> (\<exists>t vr vg vb.
           normalized_of rnd (Finite 1) (Finite 0) (Finite 8) = Inr (Finite t) \<and> 0 \<le> t \<and> t \<le> 1
         \<and> red_value rnd (Finite t) = Finite vr
         \<and> green_value rnd (Finite t) = Finite vg
         \<and> blue_value rnd (Finite t) = Finite vb
         \<and> distance_to_color rnd (Finite 1) (Finite 0) (Finite 8) = Inr (\<lfloor>vr\<rfloor>, \<lfloor>vg\<rfloor>, \<lfloor>vb\<rfloor>)
         \<and> 0 \<le> \<lfloor>vr\<rfloor> \<and> \<lfloor>vr\<rfloor> \<le> 255 \<and> 0 \<le> \<lfloor>vg\<rfloor> \<and> \<lfloor>vg\<rfloor> \<le> 255 \<and> 0 \<le> \<lfloor>vb\<rfloor> \<and> \<lfloor>vb\<rfloor> \<le> 255)
     \<and> distance_to_color rnd (Finite 1) (Finite 0) (Finite 8) = Inr (31, 63, 223)"
proof
  fix rnd
  have h1: "fsub rnd (Finite 8) (Finite 0) \<noteq> Finite 0" by simp
  have h2: "(1::real) / 2 ^ 1074 \<le> 8 - 0" by simp
  have v: "distance_to_color rnd (Finite 1) (Finite 0) (Finite 8) = Inr (31, 63, 223)"
    by (simp add: color_eval)
  from distance_to_color_truncates[of rnd "Finite 8" "Finite 0" "Finite 1" 8 0] h1 h2 v
  show "fsub rnd (Finite 8) (Finite 0) \<noteq> Finite 0
     \<and> (1::real) / 2 ^ 1074 \<le> 8 - 0
     \<and> (\<exists>t vr vg vb.
           normalized_of rnd (Finite 1) (Finite 0) (Finite 8) = Inr (Finite t) \<and> 0 \<le> t \<and> t \<le> 1
         \<and> red_value rnd (Finite t) = Finite vr
         \<and> green_value rnd (Finite t) = Finite vg
         \<and> blue_value rnd (Finite t) = Finite vb
         \<and> distance_to_color rnd (Finite 1) (Finite 0) (Finite 8) = Inr (\<lfloor>vr\<rfloor>, \<lfloor>vg\<rfloor>, \<lfloor>vb\<rfloor>)
         \<and> 0 \<le> \<lfloor>vr\<rfloor> \<and> \<lfloor>vr\<rfloor> \<le> 255 \<and> 0 \<le> \<lfloor>vg\<rfloor> \<and> \<lfloor>vg\<rfloor> \<le> 255 \<and> 0 \<le> \<lfloor>vb\<rfloor> \<and> \<lfloor>vb\<rfloor> \<le> 255)
     \<and> distance_to_color rnd (Finite 1) (Finite 0) (Finite 8) = Inr (31, 63, 223)"
    by blast
qed

section \<open>Properties of the loader\<close>



text \<open>
  Claim C10 as stated fails for a short row whose angle or distance field does not
  convert: \<open>float(row[1])\<close> raises \<open>ValueError\<close> before a missing column is indexed, so
  the row \<open>1,abc\<close> of two fields is skipped like any malformed row and the load returns
  the points of the other rows.
\<close>

theorem short_row_skipped:
  "\<forall>rnd. length [''1'', ''abc''] < 4 \<and>
   load_csv_data rnd sample_float
     [csv_header, [''1'', ''abc''], [''1'', ''0'', ''1000'', ''0''], [''1'', ''0'', ''2000'', ''0'']]
   = Inr ([(Finite 0, Finite 0, Finite 1000, 0, 0, 255), (Finite 0, Finite 0, Finite 2000, 255, 0, 0)],
          [(Finite 0, Finite 0, Finite 1000), (Finite 0, Finite 0, Finite 2000)])"
  by (simp add: load_eval)

text \<open>
  Claim C10, amended: a data row with fewer than four fields whose angle and distance
  fields, as far as they are present, convert to numbers is not skipped: indexing the
  missing column raises \<open>IndexError\<close>, which the loop does not catch, and the whole load
  ends with that exception and returns no points.
\<close>

theorem short_row_aborts:
  "row \<in> set rows \<Longrightarrow> length row < 4 \<Longrightarrow>
   (\<forall>i \<in> {1, 2}. i < length row \<longrightarrow> float_of (row ! i) \<noteq> None) \<Longrightarrow>
   parse_row float_of row = Inl IndexError
   \<and> load_csv_data rnd float_of (header # rows) = Inl IndexError"
proof -
  assume r: "row \<in> set rows" and l: "length row < 4"
    and p: "\<forall>i \<in> {1, 2}. i < length row \<longrightarrow> float_of (row ! i) \<noteq> None"
  have 1: "parse_row float_of row = Inl IndexError"
    using l p by (auto simp: parse_row_def py_index_def py_float_def split: option.splits)
  then have 2: "convert_row float_of row = Inl IndexError" by (simp add: convert_row_def)
  from load_rows_abort[OF r 2] 1 show ?thesis by (simp add: load_csv_data_def)
qed

text \<open>
  The instance of the amended C10 for a log whose second data row \<open>1,90,1000\<close> lacks the
  rotation column.
\<close>

theorem short_row_aborts_witness:
  "\<forall>rnd. [''1'', ''90'', ''1000''] \<in> set [[''1'', ''0'', ''2000'', ''0''], [''1'', ''90'', ''1000'']]
   \<and> length [''1'', ''90'', ''1000''] < 4
   \<and> sample_float ([''1'', ''90'', ''1000''] ! 1) \<noteq> None
   \<and> sample_float ([''1'', ''90'', ''1000''] ! 2) \<noteq> None
   \<and> load_csv_data rnd sample_float
        [csv_header, [''1'', ''0'', ''2000'', ''0''], [''1'', ''90'', ''1000'']]
       = Inl IndexError"
proof
  fix rnd
  from short_row_aborts [of "[''1'', ''90'', ''1000'']"
      "[[''1'', ''0'', ''2000'', ''0''], [''1'', ''90'', ''1000'']]" sample_float rnd csv_header]
  show "[''1'', ''90'', ''1000''] \<in> set [[''1'', ''0'', ''2000'', ''0''], [''1'', ''90'', ''1000'']]
   \<and> length [''1'', ''90'', ''1000''] < 4
   \<and> sample_float ([''1'', ''90'', ''1000''] ! 1) \<noteq> None
   \<and> sample_float ([''1'', ''90'', ''1000''] ! 2) \<noteq> None
   \<and> load_csv_data rnd sample_float
        [csv_header, [''1'', ''0'', ''2000'', ''0''], [''1'', ''90'', ''1000'']]
       = Inl IndexError"
    by (simp add: sample_float_simps)
qed

text \<open>
  Claim C6 as stated fails. The loader has no sentinel filter, so a log whose rows all
  carry the sentinel distance (32768 for the driver in use) is not empty for it; it does
  not raise the empty-input \<open>ValueError\<close> but \<open>ZeroDivisionError\<close>. A log with one
  valid sample, the row \<open>(1, 90, 1000, 0)\<close>, does not succeed either.
\<close>

theorem load_csv_data_all_sentinel:
  "\<forall>rnd. load_csv_data rnd sample_float
     [csv_header, [''1'', ''0'', ''32768'', ''0''], [''1'', ''1'', ''32768'', ''0'']]
   = Inl ZeroDivisionError
   \<and> Inl ZeroDivisionError \<noteq> (Inl no_valid_points :: error + (colored_point list \<times> py_point list))
   \<and> load_csv_data rnd sample_float [csv_header, [''1'', ''90'', ''1000'', ''0'']]
       = Inl ZeroDivisionError"
  by (simp add: load_eval)

text \<open>
  Claim C6, amended: \<open>load_csv_data\<close> raises \<open>ValueError("No valid points found in the CSV
  file.")\<close> when no data row holds a sample, every row having its four fields and
  either a field that fails numeric parsing or an infinite angle or rotation (a log
  with no data rows included), and never when some row holds a sample; rows are not
  filtered by the sentinel. It returns its points, one per sample, whenever no row
  lacks a field, some row holds a sample and \<open>max_distance - min_distance\<close>, computed
  over the samples, is not zero.
\<close>

theorem load_csv_data_empty_input:
  "((\<forall>row \<in> set rows. 4 \<le> length row \<and> sample_of float_of row = None)
      \<longrightarrow> load_csv_data rnd float_of (header # rows) = Inl no_valid_points)
   \<and> ((\<exists>row \<in> set rows. sample_of float_of row \<noteq> None)
      \<longrightarrow> load_csv_data rnd float_of (header # rows) \<noteq> Inl no_valid_points)
   \<and> ((\<forall>row \<in> set rows. 4 \<le> length row)
        \<and> samples_of float_of rows \<noteq> []
        \<and> py_min (map distance_in (samples_of float_of rows)) = Inr min_distance
        \<and> py_max (map distance_in (samples_of float_of rows)) = Inr max_distance
        \<and> fsub rnd max_distance min_distance \<noteq> Finite 0
      \<longrightarrow> (\<exists>colored_points.
             load_csv_data rnd float_of (header # rows)
               = Inr (colored_points, map xyz_of (samples_of float_of rows))
             \<and> length colored_points = length (samples_of float_of rows)))"
proof (intro conjI impI)
  assume a: "\<forall>row \<in> set rows. 4 \<le> length row \<and> sample_of float_of row = None"
  then have len: "\<forall>row \<in> set rows. 4 \<le> length row" by simp
  from a have "samples_of float_of rows = []"
    by (induction rows) (simp_all add: samples_of_def map_filter_simps)
  with load_rows_samples[OF len, of float_of "[]" "[]"]
  show "load_csv_data rnd float_of (header # rows) = Inl no_valid_points"
    by (simp add: load_csv_data_def finish_load_def)
next
  assume "\<exists>row \<in> set rows. sample_of float_of row \<noteq> None"
  then obtain row s where row: "row \<in> set rows" "sample_of float_of row = Some s" by auto
  note conv = convert_row_sample[OF row(2)]
  show "load_csv_data rnd float_of (header # rows) \<noteq> Inl no_valid_points"
  proof (cases "load_rows float_of rows [] []")
    case (Inl e)
    from load_rows_error[OF Inl] Inl show ?thesis
      by (simp add: load_csv_data_def no_valid_points_def)
  next
    case (Inr res)
    obtain ps ds where res: "res = (ps, ds)" by (cases res) auto
    from load_rows_converted[OF row(1) conv] Inr res have ne: "ps \<noteq> []" by simp
    from load_rows_shape[of float_of rows "[]" "[]" ps ds] Inr res
    have len: "length ps = length ds" by auto
    from finish_load_nonempty[OF ne len, of rnd] Inr res show ?thesis
      by (simp add: load_csv_data_def)
  qed
next
  assume a: "(\<forall>row \<in> set rows. 4 \<le> length row)
        \<and> samples_of float_of rows \<noteq> []
        \<and> py_min (map distance_in (samples_of float_of rows)) = Inr min_distance
        \<and> py_max (map distance_in (samples_of float_of rows)) = Inr max_distance
        \<and> fsub rnd max_distance min_distance \<noteq> Finite 0"
  let ?ss = "samples_of float_of rows"
  from a have len: "\<forall>row \<in> set rows. 4 \<le> length row" by simp
  from a have ne: "map xyz_of ?ss \<noteq> []" by simp
  have l: "length (map xyz_of ?ss) = length (map distance_in ?ss)" by simp
  from a have mn: "py_min (map distance_in ?ss) = Inr min_distance"
    and mx: "py_max (map distance_in ?ss) = Inr max_distance"
    and nz: "fsub rnd max_distance min_distance \<noteq> Finite 0" by simp_all
  from finish_load_ok[OF ne l mn mx nz] load_rows_samples[OF len, of float_of "[]" "[]"]
  show "\<exists>colored_points.
             load_csv_data rnd float_of (header # rows)
               = Inr (colored_points, map xyz_of (samples_of float_of rows))
             \<and> length colored_points = length (samples_of float_of rows)"
    by (simp add: load_csv_data_def)
qed

lemma sample_of_simps:
  "sample_of sample_float [''1'', ''abc'', ''1000'', ''0''] = None"
  "sample_of sample_float [''1'', ''inf'', ''1000'', ''0''] = None"
  "sample_of sample_float [''1'', ''0'', ''1000'', ''0''] = Some (Finite 0, Finite 1000, Finite 0)"
  "sample_of sample_float [''1'', ''0'', ''2000'', ''0''] = Some (Finite 0, Finite 2000, Finite 0)"
  by (simp_all add: sample_of_def sample_float_simps)

text \<open>
  Instances of the amended C6: a log whose two data rows have the angles \<open>abc\<close> and
  \<open>inf\<close> raises the empty-input error, and a log of two rows with the distances 1000
  and 2000 loads two points.
\<close>

theorem load_csv_data_empty_input_witness:
  "\<forall>rnd. sample_of sample_float [''1'', ''abc'', ''1000'', ''0''] = None
   \<and> sample_of sample_float [''1'', ''inf'', ''1000'', ''0''] = None
   \<and> load_csv_data rnd sample_float
        [csv_header, [''1'', ''abc'', ''1000'', ''0''], [''1'', ''inf'', ''1000'', ''0'']]
      = Inl no_valid_points
   \<and> samples_of sample_float [[''1'', ''0'', ''1000'', ''0''], [''1'', ''0'', ''2000'', ''0'']]
      = [(Finite 0, Finite 1000, Finite 0), (Finite 0, Finite 2000, Finite 0)]
   \<and> py_min [Finite 1000, Finite 2000] = Inr (Finite 1000)
   \<and> py_max [Finite 1000, Finite 2000] = Inr (Finite 2000)
   \<and> fsub rnd (Finite 2000) (Finite 1000) \<noteq> Finite 0
   \<and> load_csv_data rnd sample_float
        [csv_header, [''1'', ''0'', ''1000'', ''0''], [''1'', ''0'', ''2000'', ''0'']]
      \<noteq> Inl no_valid_points
   \<and> (\<exists>colored_points.
         load_csv_data rnd sample_float
           [csv_header, [''1'', ''0'', ''1000'', ''0''], [''1'', ''0'', ''2000'', ''0'']]
           = Inr (colored_points,
                  map xyz_of [(Finite 0, Finite 1000, Finite 0), (Finite 0, Finite 2000, Finite 0)])
         \<and> length colored_points = 2)"
proof
  fix rnd
  have ss: "samples_of sample_float [[''1'', ''0'', ''1000'', ''0''], [''1'', ''0'', ''2000'', ''0'']]
      = [(Finite 0, Finite 1000, Finite 0), (Finite 0, Finite 2000, Finite 0)]"
    by (simp add: samples_of_def map_filter_simps sample_of_simps)
  have mm: "py_min [Finite 1000, Finite 2000] = Inr (Finite 1000)"
      "py_max [Finite 1000, Finite 2000] = Inr (Finite 2000)"
      "fsub rnd (Finite 2000) (Finite 1000) \<noteq> Finite 0"
    by (simp_all add: py_min2_def py_max2_def)
  note thm1 = load_csv_data_empty_input [of "[[''1'', ''abc'', ''1000'', ''0''], [''1'', ''inf'', ''1000'', ''0'']]"
      sample_float rnd csv_header]
  note thm2 = load_csv_data_empty_input [of "[[''1'', ''0'', ''1000'', ''0''], [''1'', ''0'', ''2000'', ''0'']]"
      sample_float rnd csv_header "Finite 1000" "Finite 2000"]
  have a: "load_csv_data rnd sample_float
        [csv_header, [''1'', ''abc'', ''1000'', ''0''], [''1'', ''inf'', ''1000'', ''0'']]
      = Inl no_valid_points"
    using thm1 by (simp add: sample_of_simps)
  have b: "load_csv_data rnd sample_float
        [csv_header, [''1'', ''0'', ''1000'', ''0''], [''1'', ''0'', ''2000'', ''0'']]
      \<noteq> Inl no_valid_points"
    using thm2 by (simp add: sample_of_simps)
  have c: "\<exists>colored_points.
         load_csv_data rnd sample_float
           [csv_header, [''1'', ''0'', ''1000'', ''0''], [''1'', ''0'', ''2000'', ''0'']]
           = Inr (colored_points,
                  map xyz_of [(Finite 0, Finite 1000, Finite 0), (Finite 0, Finite 2000, Finite 0)])
         \<and> length colored_points = 2"
    using thm2 mm by (simp add: ss numeral_2_eq_2)
  from ss mm a b c sample_of_simps(1,2)
  show "sample_of sample_float [''1'', ''abc'', ''1000'', ''0''] = None
   \<and> sample_of sample_float [''1'', ''inf'', ''1000'', ''0''] = None
   \<and> load_csv_data rnd sample_float
        [csv_header, [''1'', ''abc'', ''1000'', ''0''], [''1'', ''inf'', ''1000'', ''0'']]
      = Inl no_valid_points
   \<and> samples_of sample_float [[''1'', ''0'', ''1000'', ''0''], [''1'', ''0'', ''2000'', ''0'']]
      = [(Finite 0, Finite 1000, Finite 0), (Finite 0, Finite 2000, Finite 0)]
   \<and> py_min [Finite 1000, Finite 2000] = Inr (Finite 1000)
   \<and> py_max [Finite 1000, Finite 2000] = Inr (Finite 2000)
   \<and> fsub rnd (Finite 2000) (Finite 1000) \<noteq> Finite 0
   \<and> load_csv_data rnd sample_float
        [csv_header, [''1'', ''0'', ''1000'', ''0''], [''1'', ''0'', ''2000'', ''0'']]
      \<noteq> Inl no_valid_points
   \<and> (\<exists>colored_points.
         load_csv_data rnd sample_float
           [csv_header, [''1'', ''0'', ''1000'', ''0''], [''1'', ''0'', ''2000'', ''0'']]
           = Inr (colored_points,
                  map xyz_of [(Finite 0, Finite 1000, Finite 0), (Finite 0, Finite 2000, Finite 0)])
         \<and> length colored_points = 2)"
    by blast
qed

section \<open>Properties of the scan loop\<close>

subsection \<open>Invariants of a sweep\<close>

text \<open>
  Every sweep keeps the keys of the rows written in this step distinct and inside
  \<open>seen\<close>, whether it ends or raises.
\<close>

lemma sweep_inv:
  "sweep oor rot data angles seen rows = (e, seen', rows') \<Longrightarrow>
   distinct (map measurement_id rows) \<Longrightarrow> measurement_id ` set rows \<subseteq> seen \<Longrightarrow>
   distinct (map measurement_id rows') \<and> measurement_id ` set rows' \<subseteq> seen'"
proof (induction oor rot data angles seen rows rule: sweep.induct)
  case (1 oor rot data seen rows)
  then show ?case by simp
next
  case (2 oor rot data angle angles seen rows)
  show ?case
  proof (cases "py_index data angle")
    case (Inl err)
    with 2 show ?thesis by simp
  next
    case (Inr distance)
    show ?thesis
    proof (cases "distance = oor")
      case True
      with 2 Inr show ?thesis by simp
    next
      case False
      show ?thesis
      proof (cases "(angle, distance) \<in> seen")
        case True
        with 2 Inr False show ?thesis by simp
      next
        case nseen: False
        have d: "distinct (map measurement_id (rows @ [(1, angle, distance, rot)]))"
          using 2(5,6) nseen by auto
        have s: "measurement_id ` set (rows @ [(1, angle, distance, rot)])
                   \<subseteq> insert (angle, distance) seen"
          using 2(6) by auto
        from 2(2)[OF Inr False _ _ _ d s] 2(4) Inr False nseen
        show ?thesis by (simp add: Let_def)
      qed
    qed
  qed
qed

lemma sweep_valid:
  "sweep oor rot data angles seen rows = (e, seen', rows') \<Longrightarrow>
   \<forall>row \<in> set rows. distance_of row \<noteq> oor \<Longrightarrow> \<forall>row \<in> set rows'. distance_of row \<noteq> oor"
  by (induction oor rot data angles seen rows rule: sweep.induct)
     (auto simp: Let_def split: sum.splits if_splits)

lemma sampling_inv:
  "sampling n oor rot polls sc seen rows = (out, polls', rows') \<Longrightarrow>
   distinct (map measurement_id rows) \<Longrightarrow> measurement_id ` set rows \<subseteq> seen \<Longrightarrow>
   distinct (map measurement_id rows')"
proof (induction polls arbitrary: sc seen rows)
  case Nil
  then show ?case by (simp split: if_splits)
next
  case (Cons p polls)
  show ?case
  proof (cases "sc < n")
    case False
    with Cons.prems show ?thesis by simp
  next
    case True
    show ?thesis
    proof (cases p)
      case NotAvailable
      with Cons True show ?thesis by simp
    next
      case (Available data)
      obtain e seen1 rows1 where sw: "sweep oor rot data [0..<180] seen rows = (e, seen1, rows1)"
        by (cases "sweep oor rot data [0..<180] seen rows") auto
      from sweep_inv[OF sw Cons.prems(2,3)]
      have inv: "distinct (map measurement_id rows1)" "measurement_id ` set rows1 \<subseteq> seen1"
        by simp_all
      show ?thesis
      proof (cases e)
        case None
        with Cons.prems(1) True Available sw
        have "sampling n oor rot polls (sc + 1) seen1 rows1 = (out, polls', rows')" by simp
        from Cons.IH[OF this inv] show ?thesis .
      next
        case (Some err)
        with Cons.prems(1) True Available sw have "rows' = rows1" by simp
        with inv show ?thesis by simp
      qed
    qed
  qed
qed

lemma sampling_valid:
  "sampling n oor rot polls sc seen rows = (out, polls', rows') \<Longrightarrow>
   \<forall>row \<in> set rows. distance_of row \<noteq> oor \<Longrightarrow> \<forall>row \<in> set rows'. distance_of row \<noteq> oor"
proof (induction polls arbitrary: sc seen rows)
  case Nil
  then show ?case by (simp split: if_splits)
next
  case (Cons p polls)
  show ?case
  proof (cases "sc < n")
    case False
    with Cons.prems show ?thesis by simp
  next
    case True
    show ?thesis
    proof (cases p)
      case NotAvailable
      with Cons True show ?thesis by simp
    next
      case (Available data)
      obtain e seen1 rows1 where sw: "sweep oor rot data [0..<180] seen rows = (e, seen1, rows1)"
        by (cases "sweep oor rot data [0..<180] seen rows") auto
      from sweep_valid[OF sw Cons.prems(2)]
      have inv: "\<forall>row \<in> set rows1. distance_of row \<noteq> oor" .
      show ?thesis
      proof (cases e)
        case None
        with Cons.prems(1) True Available sw
        have "sampling n oor rot polls (sc + 1) seen1 rows1 = (out, polls', rows')" by simp
        from Cons.IH[OF this inv] show ?thesis .
      next
        case (Some err)
        with Cons.prems(1) True Available sw have "rows' = rows1" by simp
        with inv show ?thesis by simp
      qed
    qed
  qed
qed

lemma scan_step_valid:
  "scan_step n oor rot polls = (out, polls', rows) \<Longrightarrow> \<forall>row \<in> set rows. distance_of row \<noteq> oor"
  unfolding scan_step_def using sampling_valid by fastforce

lemma scan_steps_valid:
  "scan_steps n oor aps step_list polls = (out, effects) \<Longrightarrow>
   WriteRow row \<in> set effects \<Longrightarrow> distance_of row \<noteq> oor"
proof (induction step_list arbitrary: polls out effects)
  case Nil
  then show ?case by simp
next
  case (Cons step rest)
  obtain o1 polls1 rows1 where st: "scan_step n oor (real step * aps) polls = (o1, polls1, rows1)"
    by (cases "scan_step n oor (real step * aps) polls") auto
  note v = scan_step_valid[OF st]
  show ?case
  proof (cases "o1 = Finished")
    case True
    obtain o2 effs2 where rec: "scan_steps n oor aps rest polls1 = (o2, effs2)"
      by (cases "scan_steps n oor aps rest polls1") auto
    from Cons.prems(1) st True rec have "effects = map WriteRow rows1 @ [MotorCmd ''C''] @ effs2"
      by (simp add: Let_def)
    with Cons.prems(2) have "row \<in> set rows1 \<or> WriteRow row \<in> set effs2" by auto
    with v Cons.IH[OF rec] show ?thesis by auto
  next
    case False
    with Cons.prems(1) st have "effects = map WriteRow rows1"
      by (cases o1) (simp_all add: Let_def)
    with Cons.prems(2) v show ?thesis by auto
  qed
qed

subsection \<open>What a sweep writes\<close>

lemma sweep_fresh:
  "distinct angles \<Longrightarrow> \<forall>a \<in> set angles. a < length data \<Longrightarrow>
   \<forall>a \<in> set angles. \<forall>d. (a, d) \<notin> seen \<Longrightarrow>
   sweep oor rot data angles seen rows =
     (None, seen \<union> measurement_id ` set (readings oor rot data angles),
      rows @ readings oor rot data angles)"
proof (induction angles arbitrary: seen rows)
  case Nil
  then show ?case by (simp add: readings_def)
next
  case (Cons a angles)
  have fresh: "\<forall>b \<in> set angles. \<forall>d. (b, d) \<notin> insert (a, data ! a) seen"
    using Cons.prems by auto
  show ?case
  proof (cases "data ! a = oor")
    case True
    with Cons show ?thesis by (simp add: py_index_def readings_def)
  next
    case False
    from Cons.prems have ns: "(a, data ! a) \<notin> seen" by simp
    from Cons.prems have "distinct angles" "\<forall>a \<in> set angles. a < length data" by simp_all
    from Cons.IH[OF this fresh, of "rows @ [(1, a, data ! a, rot)]"] False ns Cons.prems(2)
    show ?thesis by (simp add: py_index_def readings_def Let_def)
  qed
qed

lemma sweep_repeat:
  "\<forall>a \<in> set angles. a < length data \<and> (data ! a \<noteq> oor \<longrightarrow> (a, data ! a) \<in> seen) \<Longrightarrow>
   sweep oor rot data angles seen rows = (None, seen, rows)"
  by (induction angles arbitrary: seen rows) (simp_all add: py_index_def Let_def)

lemma sampling_not_available:
  "sc < n \<Longrightarrow> sampling n oor rot (replicate i NotAvailable @ polls) sc seen rows
     = sampling n oor rot polls sc seen rows"
  by (induction i) simp_all

lemma readings_id:
  "a \<in> set angles \<Longrightarrow> data ! a \<noteq> oor \<Longrightarrow>
   (a, data ! a) \<in> measurement_id ` set (readings oor rot data angles)"
proof -
  assume "a \<in> set angles" "data ! a \<noteq> oor"
  then have "(1, a, data ! a, rot) \<in> set (readings oor rot data angles)"
    by (simp add: readings_def)
  then have "measurement_id (1, a, data ! a, rot)
               \<in> measurement_id ` set (readings oor rot data angles)"
    by (rule imageI)
  then show ?thesis by simp
qed

lemma length_readings: "length (readings oor rot data [0..<180]) \<le> 180"
  using length_filter_le[of "\<lambda>angle. data ! angle \<noteq> oor" "[0..<180]"]
  by (simp add: readings_def)

lemma sweep_first:
  assumes len: "180 \<le> length data"
  shows "sweep oor rot data [0..<180] {} []
           = (None, measurement_id ` set (readings oor rot data [0..<180]),
              readings oor rot data [0..<180])"
proof -
  have "\<forall>a \<in> set [0..<180]. a < length data" using len by auto
  with sweep_fresh[of "[0..<180]" data "{}" oor rot "[]"] show ?thesis by simp
qed

lemma scan_step_twice:
  assumes len: "180 \<le> length data"
  shows "scan_step scans_per_step oor rot
           (replicate i NotAvailable @ Available data # replicate j NotAvailable @ Available data # rest)
          = (Finished, rest, readings oor rot data [0..<180])"
proof -
  let ?rs = "readings oor rot data [0..<180]"
  let ?seen = "measurement_id ` set ?rs"
  have in_range: "\<forall>a \<in> set [0..<180]. a < length data" using len by auto
  note first = sweep_first[OF len, of oor rot]
  have second: "sweep oor rot data [0..<180] ?seen ?rs = (None, ?seen, ?rs)"
  proof (rule sweep_repeat, intro ballI conjI impI)
    fix a assume a: "a \<in> set [0..<180]"
    with in_range show "a < length data" by blast
    assume "data ! a \<noteq> oor"
    with a show "(a, data ! a) \<in> ?seen" by (rule readings_id)
  qed
  have "sampling 2 oor rot
          (replicate i NotAvailable @ Available data # replicate j NotAvailable @ Available data # rest)
          0 {} []
        = sampling 2 oor rot (Available data # replicate j NotAvailable @ Available data # rest) 0 {} []"
    by (simp add: sampling_not_available)
  also have "\<dots> = sampling 2 oor rot (replicate j NotAvailable @ Available data # rest) 1 ?seen ?rs"
    using first by simp
  also have "\<dots> = sampling 2 oor rot (Available data # rest) 1 ?seen ?rs"
    by (simp add: sampling_not_available)
  also have "\<dots> = sampling 2 oor rot rest (1 + 1) ?seen ?rs"
    using second by simp
  also have "\<dots> = (Finished, rest, ?rs)"
    by (cases rest) simp_all
  finally show ?thesis by (simp add: scan_step_def scans_per_step_def)
qed

lemma scan_step_once:
  assumes len: "180 \<le> length data"
  shows "scan_step scans_per_step oor rot [Available data]
           = (Waiting, [], readings oor rot data [0..<180])"
  using sweep_first[OF len, of oor rot] by (simp add: scan_step_def scans_per_step_def)

lemma ramp_simps: "length ramp = 360" "a < 360 \<Longrightarrow> ramp ! a = int a"
  by (simp_all add: ramp_def)

lemma readings_blank: "readings oor rot (blank oor) [0..<180] = []"
  by (simp add: readings_def blank_def filter_empty_conv)

lemma scan_steps_blank:
  "scan_steps scans_per_step oor aps step_list
       (replicate (2 * length step_list) (Available (blank oor)))
     = (Finished, replicate (length step_list) (MotorCmd ''C''))"
proof (induction step_list)
  case Nil
  then show ?case by simp
next
  case (Cons step rest)
  have len: "180 \<le> length (blank oor)" by (simp add: blank_def)
  have "scan_step scans_per_step oor (real step * aps)
          (Available (blank oor) # Available (blank oor)
             # replicate (2 * length rest) (Available (blank oor)))
        = (Finished, replicate (2 * length rest) (Available (blank oor)), [])"
    using scan_step_twice[OF len, of oor "real step * aps" 0 0] by (simp add: readings_blank)
  with Cons show ?case by (simp add: Let_def)
qed

subsection \<open>Deduplication within a step\<close>

text \<open>
  Claim C2. The rows a rotation step persists (the rows \<open>scan_step\<close> returns, which
  \<open>scan_steps\<close> writes to the log) have pairwise different \<open>(angle, distance)\<close> keys,
  however the step ends. In particular, with \<open>scans_per_step = 2\<close> and two sweeps that
  return the same readings (with any number of unanswered polls before each), the step
  persists exactly one row per angle in \<open>[0, 180)\<close> whose reading is not the sentinel,
  so at most 180 rows.
\<close>
theorem scan_step_deduplicates:
  "(scan_step n_scans out_of_range rotation_deg polls = (out, polls', rows)
      \<longrightarrow> distinct (map measurement_id rows))
   \<and> (180 \<le> length data \<longrightarrow>
        scan_step scans_per_step out_of_range rotation_deg
           (replicate i NotAvailable @ Available data # replicate j NotAvailable @ Available data # rest)
          = (Finished, rest,
             map (\<lambda>angle. (1, angle, data ! angle, rotation_deg))
                 (filter (\<lambda>angle. data ! angle \<noteq> out_of_range) [0..<180]))
        \<and> length (map (\<lambda>angle. (1::int, angle, data ! angle, rotation_deg))
                 (filter (\<lambda>angle. data ! angle \<noteq> out_of_range) [0..<180])) \<le> 180)"
proof (intro conjI impI)
  assume "scan_step n_scans out_of_range rotation_deg polls = (out, polls', rows)"
  then show "distinct (map measurement_id rows)"
    unfolding scan_step_def using sampling_inv by fastforce
next
  assume len: "180 \<le> length data"
  from scan_step_twice[OF len]
  show "scan_step scans_per_step out_of_range rotation_deg
           (replicate i NotAvailable @ Available data # replicate j NotAvailable @ Available data # rest)
          = (Finished, rest,
             map (\<lambda>angle. (1, angle, data ! angle, rotation_deg))
                 (filter (\<lambda>angle. data ! angle \<noteq> out_of_range) [0..<180]))"
    by (simp add: readings_def)
  from length_readings[of out_of_range rotation_deg data]
  show "length (map (\<lambda>angle. (1::int, angle, data ! angle, rotation_deg))
                 (filter (\<lambda>angle. data ! angle \<noteq> out_of_range) [0..<180])) \<le> 180"
    by (simp add: readings_def)
qed

text \<open>
  The instance of C2 for two sweeps that both return \<open>ramp\<close>, with one unanswered poll
  between them.
\<close>

theorem scan_step_deduplicates_witness:
  "scan_step 2 32768 0 [Available ramp, NotAvailable, Available ramp] =
     (Finished, [], map (\<lambda>angle. (1, angle, ramp ! angle, 0))
                        (filter (\<lambda>angle. ramp ! angle \<noteq> 32768) [0..<180]))
   \<and> distinct (map measurement_id
        (map (\<lambda>angle. (1, angle, ramp ! angle, 0))
             (filter (\<lambda>angle. ramp ! angle \<noteq> 32768) [0..<180])))
   \<and> 180 \<le> length ramp
   \<and> length (map (\<lambda>angle. (1::int, angle, ramp ! angle, 0::real))
                 (filter (\<lambda>angle. ramp ! angle \<noteq> 32768) [0..<180])) \<le> 180"
proof -
  have len: "180 \<le> length ramp" by (simp add: ramp_def)
  from scan_step_deduplicates [of 2 32768 0 "[Available ramp, NotAvailable, Available ramp]"
      Finished "[]"
      "map (\<lambda>angle. (1, angle, ramp ! angle, 0)) (filter (\<lambda>angle. ramp ! angle \<noteq> 32768) [0..<180])"
      ramp 0 1 "[]"] len
  show ?thesis by (simp add: scans_per_step_def)
qed

subsection \<open>Cleanup on every exit\<close>

lemma written_append: "written (xs @ ys) = written xs @ written ys"
  by (induction xs rule: written.induct) simp_all

lemma written_iff: "row \<in> set (written effects) \<longleftrightarrow> WriteRow row \<in> set effects"
  by (induction effects rule: written.induct) auto

lemma written_empty: "\<forall>row. WriteRow row \<notin> set effects \<Longrightarrow> written effects = []"
  by (induction effects rule: written.induct) auto

lemma written_finally_block: "written (finally_block fault) = []"
proof (rule written_empty, rule allI)
  fix row
  have c: "WriteRow row \<notin> set cleanup" by (simp add: cleanup_def)
  show "WriteRow row \<notin> set (finally_block fault)"
  proof (cases fault)
    case None
    with c show ?thesis by (simp add: finally_block_def)
  next
    case (Some n)
    from c have "WriteRow row \<notin> set (take n cleanup)" by (blast dest: in_set_takeD)
    with Some show ?thesis by (simp add: finally_block_def)
  qed
qed

lemma written_motor: "written (replicate n (MotorCmd cmd)) = []"
  by (induction n) simp_all

lemma log_rows_foldl: "log_rows (foldl perform s effects) = log_rows s @ written effects"
proof (induction effects arbitrary: s)
  case Nil
  then show ?case by simp
next
  case (Cons e effects)
  then show ?case by (cases e) simp_all
qed

lemma foldl_cleanup:
  "scanning (foldl perform s cleanup) = False"
  "connected (foldl perform s cleanup) = False"
  "motor_sent (foldl perform s cleanup) = motor_sent s @ [''D'']"
  "log_open (foldl perform s cleanup) = False"
  by (simp_all add: cleanup_def)

lemma with_cleanup_Some:
  "with_cleanup (out, effects) interrupt fault = Some trace \<Longrightarrow>
   \<exists>k. trace = take k effects @ finally_block fault"
proof (cases interrupt)
  case None
  assume "with_cleanup (out, effects) interrupt fault = Some trace"
  with None have "trace = take (length effects) effects @ finally_block fault"
    by (cases out) (simp_all add: with_cleanup_def)
  then show ?thesis by blast
next
  case (Some k)
  assume "with_cleanup (out, effects) interrupt fault = Some trace"
  with Some have "trace = take k effects @ finally_block fault"
    by (simp add: with_cleanup_def)
  then show ?thesis by blast
qed

text \<open>
  Claim C9 as stated fails when the cleanup itself is cut short. The loop is
  interrupted before its first effect; the \<open>finally\<close> block stops the sensor,
  disconnects it and sends \<open>D\<close>, and a second interrupt arrives while
  \<open>send_motor_cmd\<close> waits for the acknowledgment: \<open>csv_file.close()\<close> is never called and
  the log stays open.
\<close>

theorem cleanup_cut_short:
  "controller 32768 [NotAvailable] (Some 0) (Some 3) = Some [StopScan, Disconnect, MotorCmd ''D'']
   \<and> log_open (foldl perform entry_state [StopScan, Disconnect, MotorCmd ''D''])"
  by (simp add: controller_def with_cleanup_def finally_block_def cleanup_def entry_state_def
        split: prod.splits)

text \<open>
  Claim C9, amended: whenever the scan loop is left, by completing all steps, by an
  exception or by an external interrupt after any number of its effects, the
  controller enters the cleanup block, which makes its calls in the order stop,
  disconnect, disarm, close, and every row the loop wrote before is in the log. When
  the four calls return and no further interrupt arrives inside the block, all of them
  are made last: the sensor is stopped and disconnected, \<open>D\<close> is the last command sent to
  the motor, and the log is closed. The controller fails to terminate only when it is
  not interrupted and the loop waits for the sensor forever.
\<close>

theorem cleanup_after_every_exit:
  "(controller out_of_range polls interrupt fault = None
      \<longleftrightarrow> interrupt = None \<and> fst (scan_loop out_of_range polls) = Waiting)
   \<and> (controller out_of_range polls interrupt fault = Some trace \<longrightarrow>
        (\<exists>k. trace = take k (snd (scan_loop out_of_range polls)) @ finally_block fault
             \<and> log_rows (foldl perform entry_state trace)
                 = written (take k (snd (scan_loop out_of_range polls))))
        \<and> (fault = None \<longrightarrow>
              (\<exists>body. trace = body @ [StopScan, Disconnect, MotorCmd ''D'', CloseLog])
            \<and> \<not> scanning (foldl perform entry_state trace)
            \<and> \<not> connected (foldl perform entry_state trace)
            \<and> last (motor_sent (foldl perform entry_state trace)) = ''D''
            \<and> \<not> log_open (foldl perform entry_state trace)))"
proof (intro conjI impI)
  obtain out effects where sl: "scan_loop out_of_range polls = (out, effects)"
    by (cases "scan_loop out_of_range polls") auto
  show "controller out_of_range polls interrupt fault = None
      \<longleftrightarrow> interrupt = None \<and> fst (scan_loop out_of_range polls) = Waiting"
    by (auto simp: controller_def with_cleanup_def sl split: option.splits outcome.splits)
  assume "controller out_of_range polls interrupt fault = Some trace"
  then have "with_cleanup (out, effects) interrupt fault = Some trace"
    by (simp add: controller_def sl)
  from with_cleanup_Some[OF this] obtain k
    where k: "trace = take k effects @ finally_block fault" by blast
  have "log_rows (foldl perform entry_state trace) = written (take k effects)"
    by (simp add: k log_rows_foldl written_append written_finally_block entry_state_def)
  with k show "\<exists>k. trace = take k (snd (scan_loop out_of_range polls)) @ finally_block fault
             \<and> log_rows (foldl perform entry_state trace)
                 = written (take k (snd (scan_loop out_of_range polls)))"
    by (auto simp: sl)
  assume "fault = None"
  with k have full: "trace = take k effects @ cleanup" by (simp add: finally_block_def)
  then show "\<exists>body. trace = body @ [StopScan, Disconnect, MotorCmd ''D'', CloseLog]"
    by (auto simp: cleanup_def)
  show "\<not> scanning (foldl perform entry_state trace)"
    "\<not> connected (foldl perform entry_state trace)"
    "last (motor_sent (foldl perform entry_state trace)) = ''D''"
    "\<not> log_open (foldl perform entry_state trace)"
    by (simp_all add: full foldl_cleanup)
qed

text \<open>
  The instance of the amended C9 for a complete run of 400 steps in which the sensor
  reads the sentinel at every angle.
\<close>

theorem cleanup_after_every_exit_witness:
  "controller 32768 (replicate 800 (Available (blank 32768))) None None
     = Some (replicate 400 (MotorCmd ''C'') @ cleanup)
   \<and> (None :: nat option) = None
   \<and> log_rows (foldl perform entry_state (replicate 400 (MotorCmd ''C'') @ cleanup)) = []
   \<and> \<not> scanning (foldl perform entry_state (replicate 400 (MotorCmd ''C'') @ cleanup))
   \<and> \<not> connected (foldl perform entry_state (replicate 400 (MotorCmd ''C'') @ cleanup))
   \<and> last (motor_sent (foldl perform entry_state (replicate 400 (MotorCmd ''C'') @ cleanup))) = ''D''
   \<and> \<not> log_open (foldl perform entry_state (replicate 400 (MotorCmd ''C'') @ cleanup))"
proof -
  have loop: "scan_loop 32768 (replicate 800 (Available (blank 32768)))
                = (Finished, replicate 400 (MotorCmd ''C''))"
    using scan_steps_blank[of 32768 step_angle "[0..<steps]"]
    by (simp add: scan_loop_def steps_def)
  have run: "controller 32768 (replicate 800 (Available (blank 32768))) None None
     = Some (replicate 400 (MotorCmd ''C'') @ cleanup)"
    by (simp add: controller_def with_cleanup_def finally_block_def loop)
  have "written (replicate 400 (MotorCmd ''C'') @ cleanup) = []"
    by (simp add: written_append written_motor cleanup_def)
  then have rows: "log_rows (foldl perform entry_state (replicate 400 (MotorCmd ''C'') @ cleanup)) = []"
    unfolding log_rows_foldl by (simp add: entry_state_def)
  from cleanup_after_every_exit [of 32768 "replicate 800 (Available (blank 32768))" None None
      "replicate 400 (MotorCmd ''C'') @ cleanup"] run rows
  show ?thesis by simp
qed

subsection \<open>The sentinel\<close>

lemma two_echoes_nth:
  "a < 360 \<Longrightarrow> two_echoes oor ! a = (if a = 90 then 2000 else if a = 0 then 1000 else oor)"
  by (simp add: two_echoes_def blank_def nth_list_update)

lemma readings_two_echoes:
  "readings 32768 rot (two_echoes 32768) [0..<180] = [(1, 0, 1000, rot), (1, 90, 2000, rot)]"
proof -
  have "filter (\<lambda>a. two_echoes 32768 ! a \<noteq> 32768) [0..<180] = [0, 90]"
  proof (rule sorted_distinct_set_unique)
    show "sorted (filter (\<lambda>a. two_echoes 32768 ! a \<noteq> 32768) [0..<180])"
      by (rule sorted_wrt_filter) simp
    show "distinct (filter (\<lambda>a. two_echoes 32768 ! a \<noteq> 32768) [0..<180])"
      by simp
    show "sorted [0::nat, 90]" "distinct [0::nat, 90]" by simp_all
    show "set (filter (\<lambda>a. two_echoes 32768 ! a \<noteq> 32768) [0..<180]) = set [0, 90]"
      by (auto simp: two_echoes_nth split: if_splits)
  qed
  then show ?thesis by (simp add: readings_def two_echoes_nth)
qed

lemma scan_loop_two_echoes:
  "scan_loop 32768 [Available (two_echoes 32768)]
     = (Waiting, [WriteRow (1, 0, 1000, 0), WriteRow (1, 90, 2000, 0)])"
proof -
  have len: "180 \<le> length (two_echoes 32768)" by (simp add: two_echoes_def blank_def)
  have "[0..<steps] = 0 # [Suc 0..<steps]"
    by (simp add: steps_def upt_conv_Cons)
  then show ?thesis
    using scan_step_once[OF len, of 32768 0] by (simp add: scan_loop_def readings_two_echoes)
qed

lemma sample_of_csv_of:
  "reads_back float_of str_int str_float row \<Longrightarrow>
   sample_of float_of (csv_of str_int str_float row) = Some (reading_of row)"
  by (cases row) (simp add: sample_of_def)

lemma samples_of_csv_of:
  "\<forall>row \<in> set rows. reads_back float_of str_int str_float row \<Longrightarrow>
   samples_of float_of (map (csv_of str_int str_float) rows) = map reading_of rows"
  by (induction rows) (simp_all add: samples_of_def map_filter_simps sample_of_csv_of)

lemma length_csv_of: "length (csv_of str_int str_float row) = 4"
  by (cases row) simp

text \<open>
  Claim C5. Take any log the scan loop has persisted, up to any moment of the run,
  whose fields read back as written. No row of it has the sentinel as its distance,
  because the loop skips a sentinel reading before it writes; the samples
  \<open>load_csv_data\<close> finds in the log are exactly the readings written, so none of them has
  the sentinel distance; and the points of a successful load are the positions of these
  samples, one coloured point for each. No point comes from a sentinel sample.
\<close>

theorem no_point_from_sentinel:
  "scan_loop out_of_range polls = (out, effects) \<Longrightarrow>
   rows = written (take k effects) \<Longrightarrow>
   \<forall>row \<in> set rows. reads_back float_of str_int str_float row \<Longrightarrow>
     (\<forall>row \<in> set rows. distance_of row \<noteq> out_of_range)
   \<and> samples_of float_of (map (csv_of str_int str_float) rows) = map reading_of rows
   \<and> (\<forall>sample \<in> set (samples_of float_of (map (csv_of str_int str_float) rows)).
         distance_in sample \<noteq> Finite (real_of_int out_of_range))
   \<and> (load_csv_data rnd float_of (csv_header # map (csv_of str_int str_float) rows)
         = Inr (colored_points, points)
       \<longrightarrow> points = map xyz_of (samples_of float_of (map (csv_of str_int str_float) rows))
           \<and> length colored_points = length points)"
proof -
  assume loop: "scan_loop out_of_range polls = (out, effects)"
    and rows: "rows = written (take k effects)"
    and rb: "\<forall>row \<in> set rows. reads_back float_of str_int str_float row"
  let ?log = "map (csv_of str_int str_float) rows"
  have valid: "\<forall>row \<in> set rows. distance_of row \<noteq> out_of_range"
  proof
    fix row assume "row \<in> set rows"
    then have "WriteRow row \<in> set (take k effects)" by (simp add: rows written_iff)
    then have "WriteRow row \<in> set effects" by (rule in_set_takeD)
    with loop show "distance_of row \<noteq> out_of_range"
      unfolding scan_loop_def by (rule scan_steps_valid)
  qed
  have samples: "samples_of float_of ?log = map reading_of rows"
    using rb by (rule samples_of_csv_of)
  have sentinel: "\<forall>sample \<in> set (samples_of float_of ?log).
         distance_in sample \<noteq> Finite (real_of_int out_of_range)"
  proof
    fix sample assume "sample \<in> set (samples_of float_of ?log)"
    with samples obtain row where row: "row \<in> set rows" "sample = reading_of row" by auto
    obtain q a d r where "row = (q, a, d, r)" by (cases row) auto
    with row valid show "distance_in sample \<noteq> Finite (real_of_int out_of_range)" by auto
  qed
  have len: "\<forall>row \<in> set ?log. 4 \<le> length row" by (simp add: length_csv_of)
  have load: "load_csv_data rnd float_of (csv_header # ?log) = Inr (colored_points, points)
       \<longrightarrow> points = map xyz_of (samples_of float_of ?log) \<and> length colored_points = length points"
  proof
    assume "load_csv_data rnd float_of (csv_header # ?log) = Inr (colored_points, points)"
    then have "finish_load rnd (map xyz_of (samples_of float_of ?log))
                 (map distance_in (samples_of float_of ?log)) = Inr (colored_points, points)"
      by (simp add: load_csv_data_def load_rows_samples[OF len])
    from finish_load_Inr[OF this]
    show "points = map xyz_of (samples_of float_of ?log) \<and> length colored_points = length points"
      by simp
  qed
  from valid samples sentinel load show ?thesis by blast
qed

text \<open>
  The instance of C5 for a scan whose only sweep returns \<open>two_echoes\<close>: two rows are
  persisted and the load returns their two points.
\<close>

theorem no_point_from_sentinel_witness:
  "\<forall>rnd. scan_loop 32768 [Available (two_echoes 32768)]
       = (Waiting, [WriteRow (1, 0, 1000, 0), WriteRow (1, 90, 2000, 0)])
   \<and> written (take 2 [WriteRow (1, 0, 1000, 0), WriteRow (1, 90, 2000, 0)])
       = [(1, 0, 1000, 0), (1, 90, 2000, 0)]
   \<and> reads_back sample_float sample_str_int sample_str_float (1, 0, 1000, 0)
   \<and> reads_back sample_float sample_str_int sample_str_float (1, 90, 2000, 0)
   \<and> map (csv_of sample_str_int sample_str_float) [(1, 0, 1000, 0), (1, 90, 2000, 0)]
       = [[''1'', ''0'', ''1000'', ''0.0''], [''1'', ''90'', ''2000'', ''0.0'']]
   \<and> samples_of sample_float [[''1'', ''0'', ''1000'', ''0.0''], [''1'', ''90'', ''2000'', ''0.0'']]
       = [(Finite 0, Finite 1000, Finite 0), (Finite 90, Finite 2000, Finite 0)]
   \<and> distance_in (Finite 0, Finite 1000, Finite 0) \<noteq> Finite 32768
   \<and> distance_in (Finite 90, Finite 2000, Finite 0) \<noteq> Finite 32768
   \<and> (\<exists>colored_points points.
         load_csv_data rnd sample_float
           [csv_header, [''1'', ''0'', ''1000'', ''0.0''], [''1'', ''90'', ''2000'', ''0.0'']]
           = Inr (colored_points, points)
         \<and> points = map xyz_of [(Finite 0, Finite 1000, Finite 0), (Finite 90, Finite 2000, Finite 0)]
         \<and> length colored_points = length points)"
proof
  fix rnd
  let ?rows = "[(1, 0, 1000, 0), (1, 90, 2000, 0)] :: log_row list"
  let ?log = "[[''1'', ''0'', ''1000'', ''0.0''], [''1'', ''90'', ''2000'', ''0.0'']]"
  note loop = scan_loop_two_echoes
  have w: "written (take 2 [WriteRow (1, 0, 1000, 0), WriteRow (1, 90, 2000, 0)]) = ?rows"
    by simp
  have rb: "reads_back sample_float sample_str_int sample_str_float (1, 0, 1000, 0)"
      "reads_back sample_float sample_str_int sample_str_float (1, 90, 2000, 0)"
    by (simp_all add: sample_str_int_def sample_str_float_def sample_float_simps)
  have csv: "map (csv_of sample_str_int sample_str_float) ?rows = ?log"
    by (simp add: sample_str_int_def sample_str_float_def)
  have ss: "samples_of sample_float ?log
       = [(Finite 0, Finite 1000, Finite 0), (Finite 90, Finite 2000, Finite 0)]"
    by (simp add: samples_of_def map_filter_simps sample_of_def sample_float_simps)
  have len: "\<forall>row \<in> set ?log. 4 \<le> length row" by simp
  have "\<exists>colored. finish_load rnd
           (map xyz_of [(Finite 0, Finite 1000, Finite 0), (Finite 90, Finite 2000, Finite 0)])
           (map distance_in [(Finite 0, Finite 1000, Finite 0), (Finite 90, Finite 2000, Finite 0)])
         = Inr (colored, map xyz_of [(Finite 0, Finite 1000, Finite 0), (Finite 90, Finite 2000, Finite 0)])
         \<and> length colored = length (map xyz_of [(Finite 0, Finite 1000, Finite 0), (Finite 90, Finite 2000, Finite 0)])"
    by (rule finish_load_ok[where min_distance = "Finite 1000" and max_distance = "Finite 2000"])
       (simp_all add: py_min2_def py_max2_def)
  then obtain colored where ld: "load_csv_data rnd sample_float (csv_header # ?log)
      = Inr (colored, map xyz_of [(Finite 0, Finite 1000, Finite 0), (Finite 90, Finite 2000, Finite 0)])"
    using load_rows_samples[OF len, of sample_float "[]" "[]"] by (auto simp: load_csv_data_def ss)
  from no_point_from_sentinel [OF loop w[symmetric], of sample_float sample_str_int sample_str_float rnd
      colored "map xyz_of [(Finite 0, Finite 1000, Finite 0), (Finite 90, Finite 2000, Finite 0)]"]
    rb csv ss ld
  have "length colored = length (map xyz_of [(Finite 0, Finite 1000, Finite 0), (Finite 90, Finite 2000, Finite 0)])"
    by simp
  with ld have ex: "\<exists>colored_points points.
         load_csv_data rnd sample_float
           [csv_header, [''1'', ''0'', ''1000'', ''0.0''], [''1'', ''90'', ''2000'', ''0.0'']]
           = Inr (colored_points, points)
         \<and> points = map xyz_of [(Finite 0, Finite 1000, Finite 0), (Finite 90, Finite 2000, Finite 0)]
         \<and> length colored_points = length points"
    by blast
  from loop w rb csv ss ex
  show "scan_loop 32768 [Available (two_echoes 32768)]
       = (Waiting, [WriteRow (1, 0, 1000, 0), WriteRow (1, 90, 2000, 0)])
   \<and> written (take 2 [WriteRow (1, 0, 1000, 0), WriteRow (1, 90, 2000, 0)])
       = [(1, 0, 1000, 0), (1, 90, 2000, 0)]
   \<and> reads_back sample_float sample_str_int sample_str_float (1, 0, 1000, 0)
   \<and> reads_back sample_float sample_str_int sample_str_float (1, 90, 2000, 0)
   \<and> map (csv_of sample_str_int sample_str_float) [(1, 0, 1000, 0), (1, 90, 2000, 0)]
       = [[''1'', ''0'', ''1000'', ''0.0''], [''1'', ''90'', ''2000'', ''0.0'']]
   \<and> samples_of sample_float [[''1'', ''0'', ''1000'', ''0.0''], [''1'', ''90'', ''2000'', ''0.0'']]
       = [(Finite 0, Finite 1000, Finite 0), (Finite 90, Finite 2000, Finite 0)]
   \<and> distance_in (Finite 0, Finite 1000, Finite 0) \<noteq> Finite 32768
   \<and> distance_in (Finite 90, Finite 2000, Finite 0) \<noteq> Finite 32768
   \<and> (\<exists>colored_points points.
         load_csv_data rnd sample_float
           [csv_header, [''1'', ''0'', ''1000'', ''0.0''], [''1'', ''90'', ''2000'', ''0.0'']]
           = Inr (colored_points, points)
         \<and> points = map xyz_of [(Finite 0, Finite 1000, Finite 0), (Finite 90, Finite 2000, Finite 0)]
         \<and> length colored_points = length points)"
    by simp
qed

end
